theory Spec2Isabelle
  imports Complex_Main "HOL-Library.AList" "HOL-Library.Sublist"
    "HOL-Library.Char_ord" "HOL-Library.List_Lexorder"
begin

section \<open>Data model of the recommendation service\<close>

text \<open>
  The development embeds \<^verbatim>\<open>backend/src/services/recommendation.ts\<close>.

  A JavaScript \<^verbatim>\<open>number\<close> that carries a score or a weight is a \<open>real\<close>: arithmetic is
  exact, rounding of IEEE doubles and the values NaN and Infinity are outside the model.
  Identifiers and the \<^verbatim>\<open>topN\<close> argument are integers. Strings are lists of 8-bit
  characters; lower-casing and trimming act on the ASCII range.

  A \<^verbatim>\<open>Map\<close> is an association list in insertion order: \<^verbatim>\<open>get\<close> is \<open>map_of\<close>,
  \<^verbatim>\<open>set\<close> is \<open>AList.update\<close> (an existing key keeps its position, a new key goes to the
  end), \<^verbatim>\<open>values()\<close> is \<open>map snd\<close>. A \<^verbatim>\<open>Set\<close> is a list without duplicates in
  insertion order.

  Output on the console (\<^verbatim>\<open>console.warn\<close>, \<^verbatim>\<open>console.error\<close>) does not influence any
  returned value and is left out.
\<close>

text \<open>
  Modelled from the spec: the declarations of \<^verbatim>\<open>Book\<close> and \<^verbatim>\<open>BookWithSimilarity\<close>
  (\<^verbatim>\<open>../types\<close>) are not among the sources. The record has the fields that the service
  reads, optional where the specification's item has them optional. \<open>created_at\<close> holds,
  when the field is truthy, the epoch milliseconds that
  \<^verbatim>\<open>new Date(book.created_at).getTime()\<close> yields.

  A corpus is the rows of the table \<^verbatim>\<open>books\<close>, one row for every book, and \<open>book_id\<close>
  is its primary key (\<^verbatim>\<open>book_history.book_id\<close> references \<^verbatim>\<open>books(id)\<close>): the
  identifiers of a corpus are pairwise distinct, \<open>distinct (map book_id corpus)\<close>.
\<close>

record Book =
  book_id :: int
  title :: string
  synopsis :: "string option"
  genre_name :: "string option"
  view_count :: "real option"
  created_at :: "int option"

record BookWithSimilarity = Book +
  similarity :: real

text \<open>\<^verbatim>\<open>{ ...item.book, similarity: s }\<close>\<close>

definition withSimilarity :: "Book \<Rightarrow> real \<Rightarrow> BookWithSimilarity" where
  "withSimilarity b s =
     \<lparr>book_id = book_id b, title = title b, synopsis = synopsis b,
      genre_name = genre_name b, view_count = view_count b,
      created_at = created_at b, similarity = s\<rparr>"

text \<open>The book inside a result entry: the entry without its \<open>similarity\<close> field.\<close>

definition bookOf :: "BookWithSimilarity \<Rightarrow> Book" where
  "bookOf r =
     \<lparr>book_id = book_id r, title = title r, synopsis = synopsis r,
      genre_name = genre_name r, view_count = view_count r,
      created_at = created_at r\<rparr>"

section \<open>String and array primitives of the language\<close>

definition upperLetters :: string where
  "upperLetters = ''ABCDEFGHIJKLMNOPQRSTUVWXYZ''"

definition lowerLetters :: string where
  "lowerLetters = ''abcdefghijklmnopqrstuvwxyz''"

definition lowerChar :: "char \<Rightarrow> char" where
  "lowerChar c = (case map_of (zip upperLetters lowerLetters) c of
                    None \<Rightarrow> c | Some d \<Rightarrow> d)"

text \<open>\<^verbatim>\<open>String.prototype.toLowerCase\<close>\<close>

definition toLowerCase :: "string \<Rightarrow> string" where
  "toLowerCase s = map lowerChar s"

definition isSpace :: "char \<Rightarrow> bool" where
  "isSpace c = (c \<in> set [CHR '' '', CHR 0x09, CHR 0x0A, CHR 0x0B, CHR 0x0C, CHR 0x0D])"

text \<open>\<^verbatim>\<open>String.prototype.trim\<close>\<close>

definition trim :: "string \<Rightarrow> string" where
  "trim s = rev (dropWhile isSpace (rev (dropWhile isSpace s)))"

text \<open>\<^verbatim>\<open>s.split(',')\<close>: the pieces between the commas; one piece when there is no comma.\<close>

fun splitComma :: "string \<Rightarrow> string list" where
  "splitComma [] = [[]]"
| "splitComma (c # cs) =
     (if c = CHR '','' then [] # splitComma cs
      else (case splitComma cs of
              [] \<Rightarrow> [[c]]
            | p # ps \<Rightarrow> (c # p) # ps))"

text \<open>\<^verbatim>\<open>String.prototype.includes\<close>: the needle occurs as a contiguous run.\<close>

fun includesStr :: "string \<Rightarrow> string \<Rightarrow> bool" where
  "includesStr [] needle = (needle = [])"
| "includesStr (c # cs) needle = (prefix needle (c # cs) \<or> includesStr cs needle)"

text \<open>A string option is truthy when it is present and not the empty string.\<close>

definition truthy :: "string option \<Rightarrow> bool" where
  "truthy s = (case s of None \<Rightarrow> False | Some t \<Rightarrow> t \<noteq> [])"

text \<open>\<^verbatim>\<open>book.genre_name.split(',').map(g => g.trim().toLowerCase())\<close>\<close>

definition bookGenres :: "string \<Rightarrow> string list" where
  "bookGenres g = map (\<lambda>p. toLowerCase (trim p)) (splitComma g)"

text \<open>
  \<^verbatim>\<open>xs.slice(0, n)\<close>: a negative end counts from the end of the array.
\<close>

definition slice0 :: "'a list \<Rightarrow> int \<Rightarrow> 'a list" where
  "slice0 xs n = (if n < 0 then take (nat (int (length xs) + n)) xs
                  else take (nat n) xs)"

text \<open>
  \<^verbatim>\<open>xs.sort((a, b) => b.score - a.score)\<close>: \<^verbatim>\<open>Array.prototype.sort\<close> is a stable sort
  (ECMAScript 2019); the comparator orders by descending score.
\<close>

definition sortDescending :: "('a \<times> real) list \<Rightarrow> ('a \<times> real) list" where
  "sortDescending xs = sort_key (\<lambda>p. - snd p) xs"

text \<open>\<^verbatim>\<open>xs.findIndex(p)\<close>, with \<open>None\<close> for the result \<open>-1\<close>.\<close>

fun findIndex :: "('a \<Rightarrow> bool) \<Rightarrow> 'a list \<Rightarrow> nat option" where
  "findIndex p [] = None"
| "findIndex p (x # xs) =
     (if p x then Some 0
      else (case findIndex p xs of None \<Rightarrow> None | Some i \<Rightarrow> Some (Suc i)))"

text \<open>\<^verbatim>\<open>m.get(k) || 0\<close>\<close>

definition getOr0 :: "('k \<times> real) list \<Rightarrow> 'k \<Rightarrow> real" where
  "getOr0 m k = (case map_of m k of None \<Rightarrow> 0 | Some v \<Rightarrow> v)"

section \<open>Personalised recommendations\<close>

text \<open>
  \<^verbatim>\<open>Date.now()\<close> is read once for every candidate that carries a creation timestamp.
  The system clock is the function \<open>clock\<close>: \<open>clock k\<close> is the value of the \<open>k\<close>-th
  reading made during the call, counted from 0.
\<close>

definition msPerDay :: real where
  "msPerDay = 1000 * 60 * 60 * 24"

text \<open>Lines 236 to 240: the popularity index, a map from identifier to view count.\<close>

definition bookPopularity :: "Book list \<Rightarrow> (int \<times> real) list" where
  "bookPopularity allBooks =
     fold (\<lambda>b m. AList.update (book_id b)
                    (case view_count b of None \<Rightarrow> 0 | Some v \<Rightarrow> v) m)
          allBooks []"

text \<open>Lines 243 to 246: \<^verbatim>\<open>Math.max(...values, 1)\<close>\<close>

definition maxPopularity :: "Book list \<Rightarrow> real" where
  "maxPopularity allBooks = fold max (map snd (bookPopularity allBooks)) 1"

text \<open>Lines 249 and 250.\<close>

definition totalUserViews :: "(string \<times> real) list \<Rightarrow> real" where
  "totalUserViews userHistoryGenres =
     fold (\<lambda>b a. a + b) (map snd userHistoryGenres) 0"

definition normalizedUserViews :: "(string \<times> real) list \<Rightarrow> real" where
  "normalizedUserViews userHistoryGenres = max (totalUserViews userHistoryGenres) 1"

text \<open>Lines 264 to 268: the loop that accumulates \<^verbatim>\<open>genreMatchWeight\<close>.\<close>

definition genreMatchWeight :: "(string \<times> real) list \<Rightarrow> string list \<Rightarrow> real" where
  "genreMatchWeight userHistoryGenres gs =
     fold (\<lambda>genre w. w + getOr0 userHistoryGenres genre) gs 0"

text \<open>
  Lines 256 to 286: the score of one candidate. \<open>reading\<close> is the value \<^verbatim>\<open>Date.now()\<close>
  returned for this candidate; it is only used when the candidate has a timestamp.
\<close>

definition scoreBook ::
  "int \<Rightarrow> (string \<times> real) list \<Rightarrow> Book list \<Rightarrow> Book \<Rightarrow> real" where
  "scoreBook reading userHistoryGenres allBooks book =
     (let score0 = 0;
          score1 =
            (if truthy (genre_name book)
             then score0 +
                  (genreMatchWeight userHistoryGenres (bookGenres (the (genre_name book)))
                     / normalizedUserViews userHistoryGenres) * 0.4
             else score0);
          popularity = getOr0 (bookPopularity allBooks) (book_id book);
          score2 = score1 + (popularity / maxPopularity allBooks) * 0.3
      in (case created_at book of
            None \<Rightarrow> score2
          | Some t \<Rightarrow>
              (let daysSinceCreated = (real_of_int reading - real_of_int t) / msPerDay;
                   recencyScore = max 0 (1 - daysSinceCreated / 365)
               in score2 + recencyScore * 0.3)))"

text \<open>
  Lines 255 to 289: the loop over the candidates. \<open>k\<close> counts the readings of the clock
  made so far.
\<close>

fun scoreBooks ::
  "(nat \<Rightarrow> int) \<Rightarrow> nat \<Rightarrow> (string \<times> real) list \<Rightarrow> Book list \<Rightarrow> Book list
     \<Rightarrow> (Book \<times> real) list" where
  "scoreBooks clock k prof allBooks [] = []"
| "scoreBooks clock k prof allBooks (book # rest) =
     (book, scoreBook (clock k) prof allBooks book)
       # scoreBooks clock (if created_at book = None then k else Suc k) prof allBooks rest"

definition normalizedTopN :: "int \<Rightarrow> int" where
  "normalizedTopN topN = min (max topN 10) 20"

definition getPersonalizedRecommendations ::
  "(nat \<Rightarrow> int) \<Rightarrow> (string \<times> real) list \<Rightarrow> Book list \<Rightarrow> Book list \<Rightarrow> int
     \<Rightarrow> BookWithSimilarity list" where
  "getPersonalizedRecommendations clock userHistoryGenres candidateBooks allBooks topN =
     (if length candidateBooks = 0 then []
      else
        (let scoredBooks = scoreBooks clock 0 userHistoryGenres allBooks candidateBooks
         in map (\<lambda>item. withSimilarity (fst item) (snd item))
              (slice0 (sortDescending scoredBooks) (normalizedTopN topN))))"

section \<open>Term weighting and cosine similarity\<close>

text \<open>
  \<^verbatim>\<open>calculateTFIDF\<close> and \<^verbatim>\<open>cosineSimilarity\<close> are imported from
  \<^verbatim>\<open>services/tfidf.ts\<close>, which is not among the sources. The definitions of this
  section follow the description of the term extractor, of the TF-IDF builder and of
  the cosine similarity in the specification; the shape of the returned value (a map
  from document index to a map from term to weight) is the one the caller uses.
\<close>

text \<open>
  Modelled from the spec: the word characters of the term extractor of
  \<^verbatim>\<open>services/tfidf.ts\<close> (letters, digits and the underscore).
\<close>

definition isWordChar :: "char \<Rightarrow> bool" where
  "isWordChar c = (c \<in> set (lowerLetters @ upperLetters @ ''0123456789_''))"

text \<open>
  Modelled from the spec: the term extractor of \<^verbatim>\<open>services/tfidf.ts\<close>; the runs of
  word characters between separators, empty runs included.
\<close>

fun wordRuns :: "string \<Rightarrow> string list" where
  "wordRuns [] = [[]]"
| "wordRuns (c # cs) =
     (if isWordChar c
      then (case wordRuns cs of
              [] \<Rightarrow> [[c]]
            | p # ps \<Rightarrow> (c # p) # ps)
      else [] # wordRuns cs)"

text \<open>
  Modelled from the spec: the term extractor of \<^verbatim>\<open>services/tfidf.ts\<close>; a term is a
  maximal run of word characters after lower-casing.
\<close>

definition extractTerms :: "string \<Rightarrow> string list" where
  "extractTerms doc = filter (\<lambda>t. t \<noteq> []) (wordRuns (toLowerCase doc))"

text \<open>
  Modelled from the spec: the term frequency of \<^verbatim>\<open>services/tfidf.ts\<close>; the count of
  the term in the document divided by the number of terms of the document.
\<close>

definition termFrequency :: "string list \<Rightarrow> string \<Rightarrow> real" where
  "termFrequency ts t = real (count_list ts t) / real (length ts)"

text \<open>
  Modelled from the spec: the document frequency of \<^verbatim>\<open>services/tfidf.ts\<close>; the
  number of documents that contain the term.
\<close>

definition documentFrequency :: "string list list \<Rightarrow> string \<Rightarrow> nat" where
  "documentFrequency docs t = length (filter (\<lambda>d. t \<in> set d) docs)"

text \<open>
  Modelled from the spec: the inverse document frequency of \<^verbatim>\<open>services/tfidf.ts\<close>;
  log (N / document frequency), the document frequency floored at 1.
\<close>

definition inverseDocumentFrequency :: "string list list \<Rightarrow> string \<Rightarrow> real" where
  "inverseDocumentFrequency docs t =
     ln (real (length docs) / real (max (documentFrequency docs t) 1))"

text \<open>
  Modelled from the spec: the vector \<^verbatim>\<open>calculateTFIDF\<close> of \<^verbatim>\<open>services/tfidf.ts\<close> builds
  for one document; a document without terms has the empty vector.
\<close>

definition tfidfVector :: "string list list \<Rightarrow> string list \<Rightarrow> (string \<times> real) list" where
  "tfidfVector docs ts =
     map (\<lambda>t. (t, termFrequency ts t * inverseDocumentFrequency docs t)) (remdups ts)"

text \<open>
  Modelled from the spec: \<^verbatim>\<open>calculateTFIDF\<close> of \<^verbatim>\<open>services/tfidf.ts\<close>; one vector for
  every document, under the index of the document.
\<close>

definition calculateTFIDF :: "string list \<Rightarrow> (nat \<times> (string \<times> real) list) list" where
  "calculateTFIDF documents =
     (let docs = map extractTerms documents
      in enumerate 0 (map (tfidfVector docs) docs))"

text \<open>
  Modelled from the spec: the dot product inside \<^verbatim>\<open>cosineSimilarity\<close> of
  \<^verbatim>\<open>services/tfidf.ts\<close>; a key that the second vector lacks counts as 0.
\<close>

definition dotProduct :: "(string \<times> real) list \<Rightarrow> (string \<times> real) list \<Rightarrow> real" where
  "dotProduct a b = sum_list (map (\<lambda>(k, v). v * getOr0 b k) a)"

text \<open>
  Modelled from the spec: the Euclidean norm inside \<^verbatim>\<open>cosineSimilarity\<close> of
  \<^verbatim>\<open>services/tfidf.ts\<close>.
\<close>

definition euclideanNorm :: "(string \<times> real) list \<Rightarrow> real" where
  "euclideanNorm a = sqrt (sum_list (map (\<lambda>(k, v). v * v) a))"

text \<open>
  Modelled from the spec: \<^verbatim>\<open>cosineSimilarity\<close> of \<^verbatim>\<open>services/tfidf.ts\<close>; the dot product
  divided by the product of the Euclidean norms, 0 when either norm is 0.
\<close>

definition cosineSimilarity :: "(string \<times> real) list \<Rightarrow> (string \<times> real) list \<Rightarrow> real" where
  "cosineSimilarity a b =
     (if euclideanNorm a = 0 \<or> euclideanNorm b = 0 then 0
      else dotProduct a b / (euclideanNorm a * euclideanNorm b))"

section \<open>Content-based recommendations\<close>

text \<open>\<^verbatim>\<open>s.add(x)\<close> on a \<^verbatim>\<open>Set\<close>\<close>

definition setAdd :: "'a \<Rightarrow> 'a list \<Rightarrow> 'a list" where
  "setAdd x s = (if x \<in> set s then s else s @ [x])"

text \<open>\<^verbatim>\<open>m.get(i) || new Map()\<close>\<close>

definition getOrEmpty :: "('k \<times> 'v list) list \<Rightarrow> 'k \<Rightarrow> 'v list" where
  "getOrEmpty m k = (case map_of m k of None \<Rightarrow> [] | Some v \<Rightarrow> v)"

text \<open>The decimal numeral that a template literal prints for an array index.\<close>

definition digitChar :: "nat \<Rightarrow> char" where
  "digitChar d = ''0123456789'' ! d"

fun showNat :: "nat \<Rightarrow> string" where
  "showNat n = (if n < 10 then [digitChar n]
                else showNat (n div 10) @ [digitChar (n mod 10)])"

declare showNat.simps [simp del]

text \<open>Lines 20 to 42.\<close>

definition createGenreVector :: "Book \<Rightarrow> string list \<Rightarrow> real list" where
  "createGenreVector book allGenres =
     (if \<not> truthy (genre_name book) then replicate (length allGenres) 0
      else
        (let bg = bookGenres (the (genre_name book))
         in map (\<lambda>genre. if toLowerCase genre \<in> set bg then 1 else 0) allGenres))"

text \<open>Lines 47 to 64; the final \<^verbatim>\<open>sort()\<close> orders the labels as strings.\<close>

definition genreSet :: "Book list \<Rightarrow> string list" where
  "genreSet books =
     fold (\<lambda>book s. if \<not> truthy (genre_name book) then s
                     else fold setAdd (bookGenres (the (genre_name book))) s)
          books []"

definition extractAllGenres :: "Book list \<Rightarrow> string list" where
  "extractAllGenres books = sort (genreSet books)"

definition titleKey :: "string \<Rightarrow> string" where
  "titleKey term = ''title_'' @ term"

definition genreKey :: "nat \<Rightarrow> string" where
  "genreKey index = ''genre_'' @ showNat index"

definition synopsisKey :: "string \<Rightarrow> string" where
  "synopsisKey term = ''synopsis_'' @ term"

text \<open>Lines 70 to 95.\<close>

definition combineVectors ::
  "(string \<times> real) list \<Rightarrow> real list \<Rightarrow> (string \<times> real) list \<Rightarrow> string list \<Rightarrow> string list
     \<Rightarrow> (string \<times> real) list" where
  "combineVectors titleVector genreVector synopsisVector allTitleTerms allSynopsisTerms =
     (let c1 = fold (\<lambda>term m. AList.update (titleKey term) (getOr0 titleVector term) m)
                 allTitleTerms [];
          c2 = fold (\<lambda>(index, v) m. AList.update (genreKey index) v m)
                 (enumerate 0 genreVector) c1
      in fold (\<lambda>term m. AList.update (synopsisKey term) (getOr0 synopsisVector term) m)
           allSynopsisTerms c2)"

text \<open>Lines 107 to 113.\<close>

definition validBooks :: "Book list \<Rightarrow> Book list" where
  "validBooks allBooks = filter (\<lambda>book. truthy (genre_name book)) allBooks"

text \<open>Lines 127 to 132.\<close>

definition titleTFIDF :: "Book list \<Rightarrow> (nat \<times> (string \<times> real) list) list" where
  "titleTFIDF vb = calculateTFIDF (map title vb)"

definition synopsisTFIDF :: "Book list \<Rightarrow> (nat \<times> (string \<times> real) list) list" where
  "synopsisTFIDF vb =
     calculateTFIDF (map (\<lambda>book. case synopsis book of None \<Rightarrow> [] | Some s \<Rightarrow> s) vb)"

text \<open>Lines 135 to 144: the set of all terms of the vectors of one field.\<close>

definition allTerms :: "(nat \<times> (string \<times> real) list) list \<Rightarrow> string list" where
  "allTerms tfidf =
     fold (\<lambda>(i, vector) s. fold (\<lambda>(term, w) s'. setAdd term s') vector s) tfidf []"

text \<open>Lines 121 to 155: the combined vectors of the valid books, in their order.\<close>

definition combinedVectors :: "Book list \<Rightarrow> (string \<times> real) list list" where
  "combinedVectors vb =
     (let allGenres = extractAllGenres vb;
          genreVectors = map (\<lambda>book. createGenreVector book allGenres) vb;
          allTitleTerms = allTerms (titleTFIDF vb);
          allSynopsisTerms = allTerms (synopsisTFIDF vb)
      in map (\<lambda>(index, book).
                combineVectors (getOrEmpty (titleTFIDF vb) index) (genreVectors ! index)
                  (getOrEmpty (synopsisTFIDF vb) index) allTitleTerms allSynopsisTerms)
           (enumerate 0 vb))"

text \<open>Lines 168 to 181: the loop that skips the target index.\<close>

definition similarities ::
  "Book list \<Rightarrow> (string \<times> real) list list \<Rightarrow> nat \<Rightarrow> (Book \<times> real) list" where
  "similarities vb cvs targetIndex =
     map (\<lambda>i. (vb ! i, cosineSimilarity (cvs ! targetIndex) (cvs ! i)))
       (filter (\<lambda>i. i \<noteq> targetIndex) [0..<length vb])"

text \<open>
  Lines 101 to 190. The parameter \<^verbatim>\<open>topN\<close> is always given; its default value 10 is the
  caller passing 10.
\<close>

definition getRecommendations :: "Book \<Rightarrow> Book list \<Rightarrow> int \<Rightarrow> BookWithSimilarity list" where
  "getRecommendations targetBook allBooks topN =
     (let vb = validBooks allBooks
      in if length vb = 0 then []
         else
           (case findIndex (\<lambda>book. book_id book = book_id targetBook) vb of
              None \<Rightarrow> []
            | Some targetIndex \<Rightarrow>
                map (\<lambda>item. withSimilarity (fst item) (snd item))
                  (slice0 (sortDescending (similarities vb (combinedVectors vb) targetIndex))
                     topN)))"

text \<open>Lines 195 to 211.\<close>

definition titleMatches :: "string \<Rightarrow> Book \<Rightarrow> bool" where
  "titleMatches query book = includesStr (toLowerCase (title book)) (toLowerCase query)"

definition getRecommendationsByTitle ::
  "string \<Rightarrow> Book list \<Rightarrow> int \<Rightarrow> BookWithSimilarity list" where
  "getRecommendationsByTitle query allBooks topN =
     (case find (titleMatches query) allBooks of
        None \<Rightarrow> []
      | Some targetBook \<Rightarrow> getRecommendations targetBook allBooks topN)"

text \<open>
  The sequence of keys of a combined vector: the keys in the order in which
  \<^verbatim>\<open>combineVectors\<close> sets them, each key once.
\<close>

definition keyList :: "string list \<Rightarrow> nat \<Rightarrow> string list \<Rightarrow> string list" where
  "keyList allTitleTerms genreCount allSynopsisTerms =
     fold (\<lambda>term ks. setAdd (synopsisKey term) ks) allSynopsisTerms
       (fold (\<lambda>index ks. setAdd (genreKey index) ks) [0..<genreCount]
          (fold (\<lambda>term ks. setAdd (titleKey term) ks) allTitleTerms []))"

section \<open>Calls of the entry points\<close>

text \<open>
  A call names one of the three exported functions and gives its arguments. \<open>invoke\<close>
  runs a call in a world whose clock readings are \<open>clock\<close>; only
  \<^verbatim>\<open>getPersonalizedRecommendations\<close> reads the clock.
\<close>

datatype call =
  CallGetRecommendations Book "Book list" int
| CallGetRecommendationsByTitle string "Book list" int
| CallGetPersonalizedRecommendations "(string \<times> real) list" "Book list" "Book list" int

fun invoke :: "(nat \<Rightarrow> int) \<Rightarrow> call \<Rightarrow> BookWithSimilarity list" where
  "invoke clock (CallGetRecommendations targetBook allBooks topN) =
     getRecommendations targetBook allBooks topN"
| "invoke clock (CallGetRecommendationsByTitle query allBooks topN) =
     getRecommendationsByTitle query allBooks topN"
| "invoke clock (CallGetPersonalizedRecommendations prof candidateBooks allBooks topN) =
     getPersonalizedRecommendations clock prof candidateBooks allBooks topN"

text \<open>The number of clock readings a call makes.\<close>

fun clockReadings :: "call \<Rightarrow> nat" where
  "clockReadings (CallGetPersonalizedRecommendations prof candidateBooks allBooks topN) =
     length (filter (\<lambda>book. created_at book \<noteq> None) candidateBooks)"
| "clockReadings c = 0"

section \<open>The personalised score as the specification words it\<close>

text \<open>
  The definitions of this section follow the wording of the specification; they are
  compared below with \<open>scoreBook\<close>, which follows the source.
\<close>

definition genreLabels :: "Book \<Rightarrow> string list" where
  "genreLabels b = (if truthy (genre_name b) then bookGenres (the (genre_name b)) else [])"

definition specGenreAffinity :: "(string \<times> real) list \<Rightarrow> Book \<Rightarrow> real" where
  "specGenreAffinity prof b =
     sum_list (map (getOr0 prof) (genreLabels b)) / max (sum_list (map snd prof)) 1"

definition specPopularity :: "Book list \<Rightarrow> int \<Rightarrow> real" where
  "specPopularity fullCorpus i =
     (let entries = filter (\<lambda>b. book_id b = i) fullCorpus
      in if entries = [] then 0
         else (case view_count (last entries) of None \<Rightarrow> 0 | Some v \<Rightarrow> v))"

definition specMaxPopularity :: "Book list \<Rightarrow> real" where
  "specMaxPopularity fullCorpus =
     Max (insert 1 (specPopularity fullCorpus ` book_id ` set fullCorpus))"

definition specPopularityScore :: "Book list \<Rightarrow> Book \<Rightarrow> real" where
  "specPopularityScore fullCorpus b = specPopularity fullCorpus (book_id b) / specMaxPopularity fullCorpus"

definition ageInDays :: "int \<Rightarrow> int \<Rightarrow> real" where
  "ageInDays now t = (real_of_int now - real_of_int t) / msPerDay"

definition specRecencyScore :: "int \<Rightarrow> Book \<Rightarrow> real" where
  "specRecencyScore now b =
     (case created_at b of None \<Rightarrow> 0 | Some t \<Rightarrow> max 0 (1 - ageInDays now t / 365))"

definition specScore :: "int \<Rightarrow> (string \<times> real) list \<Rightarrow> Book list \<Rightarrow> Book \<Rightarrow> real" where
  "specScore now prof fullCorpus b =
     0.4 * specGenreAffinity prof b + 0.3 * specPopularityScore fullCorpus b
       + 0.3 * specRecencyScore now b"

definition readingsBefore :: "Book list \<Rightarrow> nat \<Rightarrow> nat" where
  "readingsBefore candidateBooks i =
     length (filter (\<lambda>book. created_at book \<noteq> None) (take i candidateBooks))"

section \<open>Example inputs\<close>

definition mkBook :: "int \<Rightarrow> string \<Rightarrow> string option \<Rightarrow> Book" where
  "mkBook i t g =
     \<lparr>book_id = i, title = t, synopsis = None, genre_name = g,
      view_count = None, created_at = None\<rparr>"

definition zeroClock :: "nat \<Rightarrow> int" where
  "zeroClock k = 0"

definition exTimedBook :: Book where
  "exTimedBook =
     \<lparr>book_id = 7, title = ''atlas'', synopsis = None, genre_name = None,
      view_count = None, created_at = Some 0\<rparr>"

definition yearLaterClock :: "nat \<Rightarrow> int" where
  "yearLaterClock k = 31536000000"

definition exPersonalizedCall :: call where
  "exPersonalizedCall = CallGetPersonalizedRecommendations [] [exTimedBook] [] 10"

definition exCorpusDistinct :: "Book list" where
  "exCorpusDistinct = [mkBook 1 ''x'' (Some ''g''), mkBook 2 ''y'' (Some ''g'')]"

definition exCorpusShadowed :: "Book list" where
  "exCorpusShadowed =
     [mkBook 3 ''z'' (Some ''g''), mkBook 1 ''x'' None, mkBook 2 ''xy'' (Some ''g'')]"

definition exPoolTie :: "Book list" where
  "exPoolTie = [mkBook 1 ''a'' None, mkBook 2 ''b'' None, exTimedBook]"

definition exCorpusTie :: "Book list" where
  "exCorpusTie =
     [mkBook 1 ''x'' (Some ''g''), mkBook 2 ''y'' (Some ''g''), mkBook 3 ''y'' (Some ''g'')]"

definition exTieScore :: real where
  "exTieScore =
     cosineSimilarity (combinedVectors (validBooks exCorpusTie) ! 0)
       (combinedVectors (validBooks exCorpusTie) ! 1)"

section \<open>Auxiliary facts\<close>

lemma length_scoreBooks: "length (scoreBooks clock k prof allBooks cs) = length cs"
  by (induction cs arbitrary: k) simp_all

lemma length_slice0_nonneg:
  "0 \<le> n \<Longrightarrow> length (slice0 xs n) = min (length xs) (nat n)"
  by (simp add: slice0_def min.commute)

lemma slice0_take: "\<exists>m. slice0 xs n = take m xs"
  by (auto simp: slice0_def)

lemma set_slice0: "set (slice0 xs n) \<subseteq> set xs"
  using slice0_take [of xs n] by (auto dest: in_set_takeD)

lemma set_sortDescending: "set (sortDescending xs) = set xs"
  by (simp add: sortDescending_def)

lemma bookOf_withSimilarity: "bookOf (withSimilarity b s) = b"
  by (simp add: bookOf_def withSimilarity_def)

lemma similarity_withSimilarity: "similarity (withSimilarity b s) = s"
  by (simp add: withSimilarity_def)

lemma slice0_Nil: "slice0 [] n = []"
  by (simp add: slice0_def)

lemma personalized_unfold:
  "getPersonalizedRecommendations clock prof cs allBooks topN =
     map (\<lambda>item. withSimilarity (fst item) (snd item))
       (slice0 (sortDescending (scoreBooks clock 0 prof allBooks cs)) (normalizedTopN topN))"
proof (cases cs)
  case Nil
  then show ?thesis
    by (simp add: getPersonalizedRecommendations_def slice0_Nil sortDescending_def)
next
  case (Cons c cs')
  then show ?thesis
    unfolding getPersonalizedRecommendations_def Let_def by simp
qed

lemma fold_add_sum_list: "fold (\<lambda>x (a::real). a + f x) xs a0 = a0 + sum_list (map f xs)"
  by (induction xs arbitrary: a0) simp_all

lemma genreMatchWeight_sum: "genreMatchWeight prof gs = sum_list (map (getOr0 prof) gs)"
  by (simp add: genreMatchWeight_def fold_add_sum_list)

lemma totalUserViews_sum: "totalUserViews prof = sum_list (map snd prof)"
  using fold_add_sum_list [of "\<lambda>x. x" "map snd prof" 0]
  by (simp add: totalUserViews_def)

lemma bookPopularity_snoc:
  "bookPopularity (bs @ [b]) =
     AList.update (book_id b) (case view_count b of None \<Rightarrow> 0 | Some v \<Rightarrow> v) (bookPopularity bs)"
  by (simp add: bookPopularity_def)

lemma specPopularity_snoc:
  "specPopularity (bs @ [b]) i =
     (if book_id b = i then (case view_count b of None \<Rightarrow> 0 | Some v \<Rightarrow> v)
      else specPopularity bs i)"
  by (simp add: specPopularity_def)

lemma map_of_bookPopularity:
  "map_of (bookPopularity bs) i =
     (if i \<in> book_id ` set bs then Some (specPopularity bs i) else None)"
proof (induction bs rule: rev_induct)
  case Nil
  show ?case by (simp add: bookPopularity_def)
next
  case (snoc b bs)
  show ?case
    by (auto simp add: bookPopularity_snoc specPopularity_snoc update_conv' snoc.IH)
qed

lemma distinct_bookPopularity: "distinct (map fst (bookPopularity bs))"
proof (induction bs rule: rev_induct)
  case Nil
  show ?case by (simp add: bookPopularity_def)
next
  case (snoc b bs)
  then show ?case by (simp add: bookPopularity_snoc distinct_update)
qed

lemma getOr0_bookPopularity: "getOr0 (bookPopularity bs) i = specPopularity bs i"
proof (cases "i \<in> book_id ` set bs")
  case True
  then show ?thesis by (simp add: getOr0_def map_of_bookPopularity)
next
  case False
  then have "filter (\<lambda>b. book_id b = i) bs = []"
    by (auto simp: filter_empty_conv)
  with False show ?thesis
    by (simp add: getOr0_def map_of_bookPopularity specPopularity_def)
qed

lemma values_bookPopularity:
  "set (map snd (bookPopularity bs)) = specPopularity bs ` book_id ` set bs"
proof -
  have "snd ` set (bookPopularity bs) = ran (map_of (bookPopularity bs))"
    using distinct_bookPopularity [of bs] by (simp add: ran_distinct)
  also have "\<dots> = specPopularity bs ` book_id ` set bs"
    by (auto simp: ran_def map_of_bookPopularity split: if_splits)
  finally show ?thesis by simp
qed

lemma maxPopularity_spec: "maxPopularity bs = specMaxPopularity bs"
proof -
  have "fold max (map snd (bookPopularity bs)) 1 = Max (set (1 # map snd (bookPopularity bs)))"
    by (simp only: Max.set_eq_fold)
  then show ?thesis
    by (simp add: maxPopularity_def specMaxPopularity_def values_bookPopularity del: set_map)
qed

lemma scoreBook_spec: "scoreBook reading prof allBooks b = specScore reading prof allBooks b"
  by (simp add: scoreBook_def specScore_def specGenreAffinity_def specPopularityScore_def
      specRecencyScore_def ageInDays_def genreLabels_def Let_def genreMatchWeight_sum
      normalizedUserViews_def totalUserViews_sum getOr0_bookPopularity maxPopularity_spec
      split: option.splits)

lemma scoreBooks_spec:
  "scoreBooks clock k prof allBooks cs =
     map (\<lambda>i. (cs ! i, specScore (clock (k + readingsBefore cs i)) prof allBooks (cs ! i)))
       [0..<length cs]"
proof (induction cs arbitrary: k)
  case Nil
  show ?case by simp
next
  case (Cons c cs)
  have upt: "[0..<length (c # cs)] = 0 # map Suc [0..<length cs]"
    by (simp add: upt_conv_Cons map_Suc_upt del: upt_Suc)
  show ?case
    unfolding upt
    by (simp add: Cons.IH scoreBook_spec readingsBefore_def comp_def)
qed

section \<open>Size of the personalised result\<close>

text \<open>
  C3: the requested count is clamped into 10..20, and the result has exactly
  min (size of the candidate pool, clamped count) entries; a pool of at least 20
  candidates gives between 10 and 20 entries.
\<close>

theorem personalized_result_length:
  "10 \<le> normalizedTopN topN \<and> normalizedTopN topN \<le> 20
   \<and> normalizedTopN topN = (if topN < 10 then 10 else if 20 < topN then 20 else topN)
   \<and> length (getPersonalizedRecommendations clock prof candidateBooks allBooks topN)
       = min (length candidateBooks) (nat (normalizedTopN topN))
   \<and> (20 \<le> length candidateBooks \<longrightarrow>
        10 \<le> length (getPersonalizedRecommendations clock prof candidateBooks allBooks topN)
        \<and> length (getPersonalizedRecommendations clock prof candidateBooks allBooks topN) \<le> 20)"
proof -
  have clamp: "10 \<le> normalizedTopN topN" "normalizedTopN topN \<le> 20"
    by (simp_all add: normalizedTopN_def)
  have len: "length (getPersonalizedRecommendations clock prof candidateBooks allBooks topN)
       = min (length candidateBooks) (nat (normalizedTopN topN))"
    using clamp
    by (simp add: getPersonalizedRecommendations_def Let_def length_slice0_nonneg
        sortDescending_def length_scoreBooks)
  have "normalizedTopN topN = (if topN < 10 then 10 else if 20 < topN then 20 else topN)"
    by (simp add: normalizedTopN_def)
  with clamp len show ?thesis by auto
qed

theorem personalized_result_length_witness:
  "20 \<le> length (replicate 20 (mkBook 1 ''a'' None))
   \<and> 10 \<le> length (getPersonalizedRecommendations zeroClock [] (replicate 20 (mkBook 1 ''a'' None)) [] 15)
   \<and> length (getPersonalizedRecommendations zeroClock [] (replicate 20 (mkBook 1 ''a'' None)) [] 15) \<le> 20"
  using personalized_result_length [of 15 zeroClock "[]" "replicate 20 (mkBook 1 ''a'' None)" "[]"]
  by simp

section \<open>The personalised score\<close>

text \<open>
  C4: every returned entry is a candidate, and its score is
  0.4 * genre affinity + 0.3 * popularity score + 0.3 * recency score, the three parts
  as the specification words them; the recency score uses the clock reading made for
  that candidate. The first conjunct gives the whole result in these terms.
\<close>

theorem personalized_score_formula:
  "getPersonalizedRecommendations clock prof candidateBooks allBooks topN =
     map (\<lambda>item. withSimilarity (fst item) (snd item))
       (slice0
          (sortDescending
             (map (\<lambda>i. (candidateBooks ! i,
                         specScore (clock (readingsBefore candidateBooks i)) prof allBooks
                           (candidateBooks ! i)))
                [0..<length candidateBooks]))
          (normalizedTopN topN))
   \<and> (\<forall>r \<in> set (getPersonalizedRecommendations clock prof candidateBooks allBooks topN).
        \<exists>i < length candidateBooks.
          bookOf r = candidateBooks ! i
          \<and> similarity r =
              0.4 * specGenreAffinity prof (candidateBooks ! i)
              + 0.3 * specPopularityScore allBooks (candidateBooks ! i)
              + 0.3 * specRecencyScore (clock (readingsBefore candidateBooks i)) (candidateBooks ! i))"
proof -
  let ?scored = "map (\<lambda>i. (candidateBooks ! i,
                         specScore (clock (readingsBefore candidateBooks i)) prof allBooks
                           (candidateBooks ! i)))
                [0..<length candidateBooks]"
  have eq: "scoreBooks clock 0 prof allBooks candidateBooks = ?scored"
    using scoreBooks_spec [of clock 0 prof allBooks candidateBooks] by simp
  have first: "getPersonalizedRecommendations clock prof candidateBooks allBooks topN =
     map (\<lambda>item. withSimilarity (fst item) (snd item))
       (slice0 (sortDescending ?scored) (normalizedTopN topN))"
    by (simp only: personalized_unfold eq)
  have second: "\<exists>i < length candidateBooks.
          bookOf r = candidateBooks ! i
          \<and> similarity r =
              0.4 * specGenreAffinity prof (candidateBooks ! i)
              + 0.3 * specPopularityScore allBooks (candidateBooks ! i)
              + 0.3 * specRecencyScore (clock (readingsBefore candidateBooks i)) (candidateBooks ! i)"
    if "r \<in> set (getPersonalizedRecommendations clock prof candidateBooks allBooks topN)" for r
  proof -
    from that have "r \<in> (\<lambda>item. withSimilarity (fst item) (snd item))
                     ` set (slice0 (sortDescending ?scored) (normalizedTopN topN))"
      by (simp only: first set_map)
    then obtain item where
      item: "item \<in> set (slice0 (sortDescending ?scored) (normalizedTopN topN))"
      and r: "r = withSimilarity (fst item) (snd item)"
      by (rule imageE)
    from item have "item \<in> set (sortDescending ?scored)"
      by (rule subsetD [OF set_slice0])
    then have "item \<in> set ?scored"
      by (simp only: set_sortDescending)
    then have "item \<in> (\<lambda>i. (candidateBooks ! i,
                         specScore (clock (readingsBefore candidateBooks i)) prof allBooks
                           (candidateBooks ! i))) ` set [0..<length candidateBooks]"
      by (simp only: set_map)
    then obtain i where "i \<in> set [0..<length candidateBooks]"
      and it: "item = (candidateBooks ! i,
             specScore (clock (readingsBefore candidateBooks i)) prof allBooks (candidateBooks ! i))"
      by (rule imageE)
    then have i: "i < length candidateBooks" by simp
    have "bookOf r = candidateBooks ! i"
      by (simp only: r it fst_conv bookOf_withSimilarity)
    moreover have "similarity r =
              0.4 * specGenreAffinity prof (candidateBooks ! i)
              + 0.3 * specPopularityScore allBooks (candidateBooks ! i)
              + 0.3 * specRecencyScore (clock (readingsBefore candidateBooks i)) (candidateBooks ! i)"
      by (simp only: r it snd_conv similarity_withSimilarity specScore_def)
    ultimately show ?thesis using i by blast
  qed
  show ?thesis
  proof (intro conjI ballI)
    show "getPersonalizedRecommendations clock prof candidateBooks allBooks topN =
     map (\<lambda>item. withSimilarity (fst item) (snd item))
       (slice0 (sortDescending ?scored) (normalizedTopN topN))"
      by (rule first)
  qed (rule second)
qed

lemma exPersonalized_result:
  "getPersonalizedRecommendations zeroClock [] [exTimedBook] [] 10
     = [withSimilarity exTimedBook (3 / 10)]"
  by (simp add: getPersonalizedRecommendations_def exTimedBook_def
      scoreBook_def Let_def truthy_def getOr0_def bookPopularity_def maxPopularity_def
      msPerDay_def zeroClock_def normalizedTopN_def slice0_def sortDescending_def)

theorem personalized_score_formula_witness:
  "withSimilarity exTimedBook (3 / 10)
     \<in> set (getPersonalizedRecommendations zeroClock [] [exTimedBook] [] 10)
   \<and> (\<exists>i < length [exTimedBook].
         bookOf (withSimilarity exTimedBook (3 / 10)) = [exTimedBook] ! i
         \<and> similarity (withSimilarity exTimedBook (3 / 10)) =
              0.4 * specGenreAffinity [] ([exTimedBook] ! i)
              + 0.3 * specPopularityScore [] ([exTimedBook] ! i)
              + 0.3 * specRecencyScore (zeroClock (readingsBefore [exTimedBook] i)) ([exTimedBook] ! i))"
proof -
  have mem: "withSimilarity exTimedBook (3 / 10)
     \<in> set (getPersonalizedRecommendations zeroClock [] [exTimedBook] [] 10)"
    by (simp only: exPersonalized_result list.set insertI1)
  from personalized_score_formula [of zeroClock "[]" "[exTimedBook]" "[]" 10] mem
  show ?thesis by blast
qed

section \<open>Dependence on the clock\<close>

lemma scoreBook_no_timestamp:
  "created_at b = None \<Longrightarrow> scoreBook r1 prof allBooks b = scoreBook r2 prof allBooks b"
  by (simp add: scoreBook_def Let_def)

lemma scoreBooks_clock_agree:
  "(\<And>j. j < length (filter (\<lambda>book. created_at book \<noteq> None) cs) \<Longrightarrow> clock1 (k + j) = clock2 (k + j))
   \<Longrightarrow> scoreBooks clock1 k prof allBooks cs = scoreBooks clock2 k prof allBooks cs"
proof (induction cs arbitrary: k)
  case Nil
  show ?case by simp
next
  case (Cons c cs)
  show ?case
  proof (cases "created_at c")
    case None
    have "scoreBooks clock1 k prof allBooks cs = scoreBooks clock2 k prof allBooks cs"
      using Cons.prems None by (intro Cons.IH) simp
    with None show ?thesis
      using scoreBook_no_timestamp [of c "clock1 k" prof allBooks "clock2 k"] by simp
  next
    case (Some t)
    have head: "clock1 k = clock2 k"
      using Cons.prems [of 0] Some by simp
    have "scoreBooks clock1 (Suc k) prof allBooks cs = scoreBooks clock2 (Suc k) prof allBooks cs"
    proof (intro Cons.IH)
      fix j assume "j < length (filter (\<lambda>book. created_at book \<noteq> None) cs)"
      then show "clock1 (Suc k + j) = clock2 (Suc k + j)"
        using Cons.prems [of "Suc j"] Some by simp
    qed
    with Some head show ?thesis by simp
  qed
qed

text \<open>
  C1, amended: a call of an entry point returns the same result in two worlds whenever
  the clock readings the call makes are the same in both. \<^verbatim>\<open>getRecommendations\<close> and
  \<^verbatim>\<open>getRecommendationsByTitle\<close> make no reading, so their result depends on the
  arguments alone; \<^verbatim>\<open>getPersonalizedRecommendations\<close> makes one reading for every
  candidate that carries a creation timestamp.
\<close>

theorem entry_points_determined_by_arguments_and_clock:
  "(\<forall>k < clockReadings c. clock1 k = clock2 k) \<Longrightarrow> invoke clock1 c = invoke clock2 c"
proof (cases c)
  case (CallGetPersonalizedRecommendations prof cs allBooks topN)
  assume "\<forall>k < clockReadings c. clock1 k = clock2 k"
  then have "scoreBooks clock1 0 prof allBooks cs = scoreBooks clock2 0 prof allBooks cs"
    using CallGetPersonalizedRecommendations by (intro scoreBooks_clock_agree) simp
  then show ?thesis
    using CallGetPersonalizedRecommendations by (simp add: personalized_unfold)
qed simp_all



text \<open>
  The unamended statement fails: the same call of \<^verbatim>\<open>getPersonalizedRecommendations\<close> returns
  different scores under two different clocks.
\<close>

lemma exPersonalized_zero:
  "map similarity (invoke zeroClock exPersonalizedCall) = [3 / 10]"
  by (simp add: exPersonalizedCall_def getPersonalizedRecommendations_def exTimedBook_def
      scoreBook_def Let_def truthy_def getOr0_def bookPopularity_def maxPopularity_def
      msPerDay_def zeroClock_def normalizedTopN_def slice0_def sortDescending_def
      withSimilarity_def)

lemma exPersonalized_later:
  "map similarity (invoke yearLaterClock exPersonalizedCall) = [0]"
  by (simp add: exPersonalizedCall_def getPersonalizedRecommendations_def exTimedBook_def
      scoreBook_def Let_def truthy_def getOr0_def bookPopularity_def maxPopularity_def
      msPerDay_def yearLaterClock_def normalizedTopN_def slice0_def sortDescending_def
      withSimilarity_def)

theorem entry_points_pure_counterexample:
  "\<not> (\<forall>clock1 clock2 c. invoke clock1 c = invoke clock2 c)"
proof
  assume "\<forall>clock1 clock2 c. invoke clock1 c = invoke clock2 c"
  then have "invoke zeroClock exPersonalizedCall = invoke yearLaterClock exPersonalizedCall"
    by blast
  then have "map similarity (invoke zeroClock exPersonalizedCall)
           = map similarity (invoke yearLaterClock exPersonalizedCall)"
    by simp
  then show False
    by (simp only: exPersonalized_zero exPersonalized_later) simp
qed


theorem entry_points_determined_witness:
  "(clockReadings (CallGetPersonalizedRecommendations [] [mkBook 1 ''a'' None, exTimedBook] [] 10) = 1)
   \<and> zeroClock 0 = (\<lambda>k. if k = 0 then 0 else 5) 0
   \<and> invoke zeroClock (CallGetPersonalizedRecommendations [] [mkBook 1 ''a'' None, exTimedBook] [] 10)
     = invoke (\<lambda>k. if k = 0 then 0 else 5) (CallGetPersonalizedRecommendations [] [mkBook 1 ''a'' None, exTimedBook] [] 10)"
  using entry_points_determined_by_arguments_and_clock
    [of "CallGetPersonalizedRecommendations [] [mkBook 1 ''a'' None, exTimedBook] [] 10"
        zeroClock "\<lambda>k. if k = 0 then 0 else 5"]
  by (simp add: zeroClock_def exTimedBook_def mkBook_def)

section \<open>Facts about the content-based ranking\<close>

lemma findIndex_None_iff: "findIndex p xs = None \<longleftrightarrow> (\<forall>x \<in> set xs. \<not> p x)"
  by (induction xs) (auto split: option.splits)

lemma findIndex_Some:
  "findIndex p xs = Some i \<Longrightarrow> i < length xs \<and> p (xs ! i) \<and> (\<forall>j < i. \<not> p (xs ! j))"
proof (induction xs arbitrary: i)
  case Nil
  then show ?case by simp
next
  case (Cons x xs)
  show ?case
  proof (cases "p x")
    case True
    with Cons.prems show ?thesis by simp
  next
    case False
    with Cons.prems obtain k where k: "findIndex p xs = Some k" and i: "i = Suc k"
      by (auto split: option.splits)
    from Cons.IH [OF k] have "k < length xs" "p (xs ! k)" "\<forall>j < k. \<not> p (xs ! j)"
      by simp_all
    with False i show ?thesis
      by (auto simp: nth_Cons split: nat.splits)
  qed
qed

lemma includesStr_sublist: "includesStr hay needle \<longleftrightarrow> sublist needle hay"
  by (induction hay) (auto simp: sublist_Cons_right)

lemma set_validBooks: "set (validBooks allBooks) = {b \<in> set allBooks. truthy (genre_name b)}"
  by (simp add: validBooks_def)

lemma getRecommendations_not_found:
  "findIndex (\<lambda>book. book_id book = book_id t) (validBooks allBooks) = None
   \<Longrightarrow> getRecommendations t allBooks n = []"
  by (simp add: getRecommendations_def Let_def)

lemma getRecommendations_found:
  "findIndex (\<lambda>book. book_id book = book_id t) (validBooks allBooks) = Some ti
   \<Longrightarrow> getRecommendations t allBooks n =
        map (\<lambda>item. withSimilarity (fst item) (snd item))
          (slice0 (sortDescending
             (similarities (validBooks allBooks) (combinedVectors (validBooks allBooks)) ti)) n)"
  by (auto simp add: getRecommendations_def Let_def)

lemma length_similarities:
  "ti < length vb \<Longrightarrow> length (similarities vb cvs ti) = length vb - 1"
proof -
  assume ti: "ti < length vb"
  have "length (filter (\<lambda>i. i \<noteq> ti) [0..<length vb])
          = card {i. i < length vb \<and> i \<noteq> ti}"
    by (simp add: length_filter_conv_card cong: conj_cong)
  also have "{i. i < length vb \<and> i \<noteq> ti} = {..<length vb} - {ti}"
    by auto
  also have "card \<dots> = length vb - 1"
    using ti by simp
  finally show ?thesis by (simp add: similarities_def)
qed

lemma set_similarities:
  "item \<in> set (similarities vb cvs ti) \<Longrightarrow>
     \<exists>i < length vb. i \<noteq> ti \<and> item = (vb ! i, cosineSimilarity (cvs ! ti) (cvs ! i))"
  by (auto simp: similarities_def)

section \<open>Exclusion of the target\<close>

lemma length_getRecommendations:
  assumes "findIndex (\<lambda>book. book_id book = book_id t) (validBooks allBooks) = Some ti"
    and "0 \<le> n"
  shows "length (getRecommendations t allBooks n)
           = min (length (validBooks allBooks) - 1) (nat n)"
proof -
  from findIndex_Some [OF assms(1)] have "ti < length (validBooks allBooks)" by simp
  then show ?thesis
    using assms(2)
    by (simp add: getRecommendations_found [OF assms(1)] length_slice0_nonneg
        sortDescending_def length_similarities)
qed

lemma result_entry:
  assumes found: "findIndex (\<lambda>book. book_id book = book_id t) (validBooks allBooks) = Some ti"
    and r: "r \<in> set (getRecommendations t allBooks n)"
  shows "\<exists>i < length (validBooks allBooks). i \<noteq> ti
           \<and> bookOf r = validBooks allBooks ! i
           \<and> similarity r =
               cosineSimilarity (combinedVectors (validBooks allBooks) ! ti)
                 (combinedVectors (validBooks allBooks) ! i)"
proof -
  let ?vb = "validBooks allBooks"
  let ?sims = "similarities ?vb (combinedVectors ?vb) ti"
  from r have "r \<in> (\<lambda>item. withSimilarity (fst item) (snd item))
                     ` set (slice0 (sortDescending ?sims) n)"
    by (simp only: getRecommendations_found [OF found] set_map)
  then obtain item where item: "item \<in> set (slice0 (sortDescending ?sims) n)"
    and rr: "r = withSimilarity (fst item) (snd item)"
    by (rule imageE)
  from item have "item \<in> set (sortDescending ?sims)"
    by (rule subsetD [OF set_slice0])
  then have "item \<in> set ?sims"
    by (simp only: set_sortDescending)
  from set_similarities [OF this] obtain i where i: "i < length ?vb" "i \<noteq> ti"
    and it: "item = (?vb ! i, cosineSimilarity (combinedVectors ?vb ! ti) (combinedVectors ?vb ! i))"
    by blast
  have "bookOf r = ?vb ! i"
    by (simp only: rr it fst_conv bookOf_withSimilarity)
  moreover have "similarity r =
      cosineSimilarity (combinedVectors ?vb ! ti) (combinedVectors ?vb ! i)"
    by (simp only: rr it snd_conv similarity_withSimilarity)
  ultimately show ?thesis using i by blast
qed

lemma book_id_bookOf: "book_id (bookOf r) = book_id r"
  by (simp add: bookOf_def)

lemma distinct_ids_validBooks:
  "distinct (map book_id allBooks) \<Longrightarrow> distinct (map book_id (validBooks allBooks))"
  unfolding validBooks_def by (rule distinct_map_filter)

text \<open>
  C2: for a corpus with pairwise distinct identifiers and a target whose identifier
  occurs in it, no entry of the result of \<^verbatim>\<open>getRecommendations\<close> carries the identifier
  of the target.
\<close>

theorem target_excluded:
  "distinct (map book_id allBooks)
   \<Longrightarrow> book_id targetBook \<in> book_id ` set allBooks
   \<Longrightarrow> \<forall>r \<in> set (getRecommendations targetBook allBooks topN).
         book_id r \<noteq> book_id targetBook"
proof
  fix r
  assume ids: "distinct (map book_id allBooks)"
    and r: "r \<in> set (getRecommendations targetBook allBooks topN)"
  let ?vb = "validBooks allBooks"
  let ?P = "\<lambda>book. book_id book = book_id targetBook"
  have d: "distinct (map book_id ?vb)"
    using ids by (rule distinct_ids_validBooks)
  show "book_id r \<noteq> book_id targetBook"
  proof (cases "findIndex ?P ?vb")
    case None
    with r show ?thesis by (simp add: getRecommendations_not_found)
  next
    case (Some ti)
    from findIndex_Some [OF Some] have ti: "ti < length ?vb" "?P (?vb ! ti)"
      by simp_all
    from result_entry [OF Some r] obtain i where
      i: "i < length ?vb" "i \<noteq> ti" and b: "bookOf r = ?vb ! i"
      by blast
    show ?thesis
    proof
      assume "book_id r = book_id targetBook"
      then have "book_id (?vb ! i) = book_id (?vb ! ti)"
        using b book_id_bookOf [of r] ti(2) by simp
      then have "map book_id ?vb ! i = map book_id ?vb ! ti"
        using i(1) ti(1) by simp
      then have "i = ti"
        by (metis d i(1) ti(1) length_map nth_eq_iff_index_eq)
      with i(2) show False by simp
    qed
  qed
qed

lemma exCorpusDistinct_valid: "validBooks exCorpusDistinct = exCorpusDistinct"
  by (simp add: validBooks_def exCorpusDistinct_def mkBook_def truthy_def)

lemma exCorpusDistinct_index:
  "findIndex (\<lambda>book. book_id book = book_id (mkBook 1 ''x'' (Some ''g''))) exCorpusDistinct = Some 0"
  by (simp add: exCorpusDistinct_def mkBook_def)

lemma exCorpusDistinct_length:
  "length (getRecommendations (mkBook 1 ''x'' (Some ''g'')) exCorpusDistinct 10) = 1"
  using length_getRecommendations [of "mkBook 1 ''x'' (Some ''g'')" exCorpusDistinct 0 10]
  by (simp add: exCorpusDistinct_valid exCorpusDistinct_index) (simp add: exCorpusDistinct_def)

lemma exCorpusDistinct_ids: "distinct (map book_id exCorpusDistinct)"
  by (simp add: exCorpusDistinct_def mkBook_def)

theorem target_excluded_witness:
  "distinct (map book_id exCorpusDistinct)
   \<and> book_id (mkBook 1 ''x'' (Some ''g'')) \<in> book_id ` set exCorpusDistinct
   \<and> getRecommendations (mkBook 1 ''x'' (Some ''g'')) exCorpusDistinct 10 \<noteq> []
   \<and> book_id (hd (getRecommendations (mkBook 1 ''x'' (Some ''g'')) exCorpusDistinct 10))
        \<noteq> book_id (mkBook 1 ''x'' (Some ''g''))"
proof -
  let ?t = "mkBook 1 ''x'' (Some ''g'')"
  have occurs: "book_id ?t \<in> book_id ` set exCorpusDistinct"
    by (simp add: exCorpusDistinct_def)
  have ne: "getRecommendations ?t exCorpusDistinct 10 \<noteq> []"
    using exCorpusDistinct_length by auto
  then have "hd (getRecommendations ?t exCorpusDistinct 10)
               \<in> set (getRecommendations ?t exCorpusDistinct 10)"
    by (rule hd_in_set)
  with target_excluded [OF exCorpusDistinct_ids occurs, of 10] exCorpusDistinct_ids occurs ne
  show ?thesis by blast
qed

section \<open>Empty results and title lookup\<close>

lemma titleMatches_sublist:
  "titleMatches query book \<longleftrightarrow> sublist (toLowerCase query) (toLowerCase (title book))"
  by (simp add: titleMatches_def includesStr_sublist)

lemma titleMatches_same: "title book = query \<Longrightarrow> titleMatches query book"
  by (simp add: titleMatches_sublist)

lemma validBooks_empty: "(\<forall>b \<in> set allBooks. \<not> truthy (genre_name b)) \<Longrightarrow> validBooks allBooks = []"
  by (simp add: validBooks_def filter_empty_conv)

lemma getRecommendations_no_valid: "validBooks allBooks = [] \<Longrightarrow> getRecommendations t allBooks n = []"
  by (simp add: getRecommendations_def)

lemma getRecommendations_unknown_id:
  "book_id t \<notin> book_id ` set (validBooks allBooks) \<Longrightarrow> getRecommendations t allBooks n = []"
proof -
  assume "book_id t \<notin> book_id ` set (validBooks allBooks)"
  then have "\<forall>b \<in> set (validBooks allBooks). \<not> book_id b = book_id t"
    by (metis imageI)
  then have "findIndex (\<lambda>book. book_id book = book_id t) (validBooks allBooks) = None"
    by (simp only: findIndex_None_iff)
  then show ?thesis by (rule getRecommendations_not_found)
qed

lemma byTitle_no_match:
  "(\<forall>b \<in> set allBooks. \<not> titleMatches query b) \<Longrightarrow> getRecommendationsByTitle query allBooks n = []"
  by (simp add: getRecommendationsByTitle_def find_None_iff [THEN iffD2])

lemma byTitle_match:
  "find (titleMatches query) allBooks = Some t
   \<Longrightarrow> getRecommendationsByTitle query allBooks n = getRecommendations t allBooks n"
  by (simp add: getRecommendationsByTitle_def)

text \<open>
  C5: the model of \<^verbatim>\<open>getRecommendations\<close> and \<^verbatim>\<open>getRecommendationsByTitle\<close> is a
  total function into lists, the source has no \<^verbatim>\<open>throw\<close>; an empty corpus, a corpus
  in which no book has genre labels, a target identifier absent from the books with
  genre labels, and a query that no title contains (compared in lower case) each give
  the empty list.
\<close>

theorem empty_results:
  "getRecommendations targetBook [] topN = []
   \<and> getRecommendationsByTitle query [] topN = []
   \<and> ((\<forall>b \<in> set allBooks. \<not> truthy (genre_name b)) \<longrightarrow>
         getRecommendations targetBook allBooks topN = []
         \<and> getRecommendationsByTitle query allBooks topN = [])
   \<and> (book_id targetBook \<notin> book_id ` set (validBooks allBooks) \<longrightarrow>
         getRecommendations targetBook allBooks topN = [])
   \<and> ((\<forall>b \<in> set allBooks. \<not> sublist (toLowerCase query) (toLowerCase (title b))) \<longrightarrow>
         getRecommendationsByTitle query allBooks topN = [])"
proof (intro conjI impI)
  show "getRecommendations targetBook [] topN = []"
    by (simp add: getRecommendations_no_valid validBooks_def)
  show "getRecommendationsByTitle query [] topN = []"
    by (simp add: getRecommendationsByTitle_def)
next
  assume none: "\<forall>b \<in> set allBooks. \<not> truthy (genre_name b)"
  then have empty: "validBooks allBooks = []" by (rule validBooks_empty)
  then show "getRecommendations targetBook allBooks topN = []"
    by (rule getRecommendations_no_valid)
  show "getRecommendationsByTitle query allBooks topN = []"
  proof (cases "find (titleMatches query) allBooks")
    case None
    then show ?thesis by (simp add: getRecommendationsByTitle_def)
  next
    case (Some t)
    then show ?thesis
      by (simp add: getRecommendationsByTitle_def getRecommendations_no_valid [OF empty])
  qed
next
  assume "book_id targetBook \<notin> book_id ` set (validBooks allBooks)"
  then show "getRecommendations targetBook allBooks topN = []"
    by (rule getRecommendations_unknown_id)
next
  assume "\<forall>b \<in> set allBooks. \<not> sublist (toLowerCase query) (toLowerCase (title b))"
  then have "\<forall>b \<in> set allBooks. \<not> titleMatches query b"
    by (simp add: titleMatches_sublist)
  then show "getRecommendationsByTitle query allBooks topN = []"
    by (rule byTitle_no_match)
qed

lemma lower_x: "toLowerCase ''x'' = ''x''"
  by (simp add: toLowerCase_def lowerChar_def upperLetters_def lowerLetters_def)

lemma lower_y: "toLowerCase ''y'' = ''y''"
  by (simp add: toLowerCase_def lowerChar_def upperLetters_def lowerLetters_def)

lemma not_sublist_y_x: "\<not> sublist ''y'' ''x''"
  by (simp add: sublist_Cons_right)

theorem empty_results_witness:
  "\<not> truthy (genre_name (mkBook 1 ''x'' None))
   \<and> getRecommendations (mkBook 1 ''x'' None) [mkBook 1 ''x'' None] 10 = []
   \<and> getRecommendationsByTitle ''x'' [mkBook 1 ''x'' None] 10 = []
   \<and> book_id (mkBook 5 ''x'' None) \<notin> book_id ` set (validBooks exCorpusDistinct)
   \<and> getRecommendations (mkBook 5 ''x'' None) exCorpusDistinct 10 = []
   \<and> \<not> sublist (toLowerCase ''y'') (toLowerCase (title (mkBook 1 ''x'' (Some ''g''))))
   \<and> getRecommendationsByTitle ''y'' [mkBook 1 ''x'' (Some ''g'')] 10 = []"
proof -
  have g1: "\<not> truthy (genre_name (mkBook 1 ''x'' None))"
    by (simp add: mkBook_def truthy_def)
  then have h1: "\<forall>b \<in> set [mkBook 1 ''x'' None]. \<not> truthy (genre_name b)"
    by simp
  have h2: "book_id (mkBook 5 ''x'' None) \<notin> book_id ` set (validBooks exCorpusDistinct)"
    by (simp add: exCorpusDistinct_valid) (simp add: exCorpusDistinct_def mkBook_def)
  have g3: "\<not> sublist (toLowerCase ''y'') (toLowerCase (title (mkBook 1 ''x'' (Some ''g''))))"
    by (simp add: mkBook_def lower_x lower_y not_sublist_y_x)
  then have h3: "\<forall>b \<in> set [mkBook 1 ''x'' (Some ''g'')].
         \<not> sublist (toLowerCase ''y'') (toLowerCase (title b))"
    by simp
  from empty_results [of "mkBook 1 ''x'' None" 10 "''x''" "[mkBook 1 ''x'' None]"] h1
  have c1: "getRecommendations (mkBook 1 ''x'' None) [mkBook 1 ''x'' None] 10 = []"
    and c2: "getRecommendationsByTitle ''x'' [mkBook 1 ''x'' None] 10 = []"
    by blast+
  from empty_results [of "mkBook 5 ''x'' None" 10 "''x''" exCorpusDistinct] h2
  have c3: "getRecommendations (mkBook 5 ''x'' None) exCorpusDistinct 10 = []"
    by blast
  from empty_results [of "mkBook 1 ''x'' None" 10 "''y''" "[mkBook 1 ''x'' (Some ''g'')]"] h3
  have c4: "getRecommendationsByTitle ''y'' [mkBook 1 ''x'' (Some ''g'')] 10 = []"
    by blast
  from g1 h2 g3 c1 c2 c3 c4 show ?thesis by (intro conjI)
qed

text \<open>
  C9: when the book at position \<open>i\<close> is the first one whose lower-cased title contains
  the lower-cased query, \<^verbatim>\<open>getRecommendationsByTitle\<close> returns what
  \<^verbatim>\<open>getRecommendations\<close> returns for that book, the same corpus and the same \<open>topN\<close>.
\<close>

theorem byTitle_first_match:
  "i < length allBooks
   \<Longrightarrow> sublist (toLowerCase query) (toLowerCase (title (allBooks ! i)))
   \<Longrightarrow> (\<forall>j < i. \<not> sublist (toLowerCase query) (toLowerCase (title (allBooks ! j))))
   \<Longrightarrow> getRecommendationsByTitle query allBooks topN
         = getRecommendations (allBooks ! i) allBooks topN"
proof -
  assume i: "i < length allBooks"
    and m: "sublist (toLowerCase query) (toLowerCase (title (allBooks ! i)))"
    and first: "\<forall>j < i. \<not> sublist (toLowerCase query) (toLowerCase (title (allBooks ! j)))"
  have "find (titleMatches query) allBooks = Some (allBooks ! i)"
    unfolding find_Some_iff titleMatches_sublist using i m first by blast
  then show ?thesis by (rule byTitle_match)
qed

theorem byTitle_first_match_witness:
  "(1::nat) < length exCorpusDistinct
   \<and> sublist (toLowerCase ''y'') (toLowerCase (title (exCorpusDistinct ! 1)))
   \<and> \<not> sublist (toLowerCase ''y'') (toLowerCase (title (exCorpusDistinct ! 0)))
   \<and> getRecommendationsByTitle ''y'' exCorpusDistinct 10
         = getRecommendations (exCorpusDistinct ! 1) exCorpusDistinct 10"
proof -
  have h1: "(1::nat) < length exCorpusDistinct"
    by (simp add: exCorpusDistinct_def)
  have h2: "sublist (toLowerCase ''y'') (toLowerCase (title (exCorpusDistinct ! 1)))"
    by (simp add: exCorpusDistinct_def mkBook_def)
  have g3: "\<not> sublist (toLowerCase ''y'') (toLowerCase (title (exCorpusDistinct ! 0)))"
    by (simp add: exCorpusDistinct_def mkBook_def lower_x lower_y not_sublist_y_x)
  then have h3: "\<forall>j < (1::nat). \<not> sublist (toLowerCase ''y'') (toLowerCase (title (exCorpusDistinct ! j)))"
    by simp
  from byTitle_first_match [OF h1 h2 h3, of 10] h1 h2 g3 show ?thesis by (intro conjI)
qed

text \<open>
  C10: in a corpus with pairwise distinct identifiers, when the first book whose title
  matches the query has no genre labels, \<^verbatim>\<open>getRecommendationsByTitle\<close> returns the empty
  list: the title is matched over the whole corpus, and the chosen target is absent
  from the books with genre labels. Later matching books with genre labels do not
  change this.
\<close>

theorem byTitle_first_match_without_genre:
  "distinct (map book_id allBooks)
   \<Longrightarrow> i < length allBooks
   \<Longrightarrow> sublist (toLowerCase query) (toLowerCase (title (allBooks ! i)))
   \<Longrightarrow> (\<forall>j < i. \<not> sublist (toLowerCase query) (toLowerCase (title (allBooks ! j))))
   \<Longrightarrow> \<not> truthy (genre_name (allBooks ! i))
   \<Longrightarrow> getRecommendationsByTitle query allBooks topN = []"
proof -
  assume ids: "distinct (map book_id allBooks)"
    and i: "i < length allBooks"
    and m: "sublist (toLowerCase query) (toLowerCase (title (allBooks ! i)))"
    and first: "\<forall>j < i. \<not> sublist (toLowerCase query) (toLowerCase (title (allBooks ! j)))"
    and nogenre: "\<not> truthy (genre_name (allBooks ! i))"
  from ids have inj: "inj_on book_id (set allBooks)"
    by (simp add: distinct_map)
  have absent: "book_id (allBooks ! i) \<notin> book_id ` set (validBooks allBooks)"
  proof
    assume "book_id (allBooks ! i) \<in> book_id ` set (validBooks allBooks)"
    then obtain b where b: "b \<in> set (validBooks allBooks)"
      and eq: "book_id (allBooks ! i) = book_id b"
      by (rule imageE)
    from b have bin: "b \<in> set allBooks" and g: "truthy (genre_name b)"
      by (simp_all add: validBooks_def)
    from i have iin: "allBooks ! i \<in> set allBooks" by simp
    have "allBooks ! i = b"
      by (rule inj_onD [OF inj eq iin bin])
    with g nogenre show False by simp
  qed
  have "find (titleMatches query) allBooks = Some (allBooks ! i)"
    unfolding find_Some_iff titleMatches_sublist using i m first by blast
  then have "getRecommendationsByTitle query allBooks topN
               = getRecommendations (allBooks ! i) allBooks topN"
    by (rule byTitle_match)
  also have "\<dots> = []"
    using absent by (rule getRecommendations_unknown_id)
  finally show ?thesis .
qed

lemma lower_xy: "toLowerCase ''xy'' = ''xy''"
  by (simp add: toLowerCase_def lowerChar_def upperLetters_def lowerLetters_def)

lemma lower_z: "toLowerCase ''z'' = ''z''"
  by (simp add: toLowerCase_def lowerChar_def upperLetters_def lowerLetters_def)

lemma not_sublist_x_z: "\<not> sublist ''x'' ''z''"
  by (simp add: sublist_Cons_right)

lemma exCorpusShadowed_valid:
  "validBooks exCorpusShadowed = [mkBook 3 ''z'' (Some ''g''), mkBook 2 ''xy'' (Some ''g'')]"
  by (simp add: validBooks_def exCorpusShadowed_def mkBook_def truthy_def)

lemma exCorpusShadowed_ids: "distinct (map book_id exCorpusShadowed)"
  by (simp add: exCorpusShadowed_def mkBook_def)

theorem byTitle_first_match_without_genre_witness:
  "distinct (map book_id exCorpusShadowed)
   \<and> (1::nat) < length exCorpusShadowed
   \<and> sublist (toLowerCase ''x'') (toLowerCase (title (exCorpusShadowed ! 1)))
   \<and> \<not> sublist (toLowerCase ''x'') (toLowerCase (title (exCorpusShadowed ! 0)))
   \<and> \<not> truthy (genre_name (exCorpusShadowed ! 1))
   \<and> sublist (toLowerCase ''x'') (toLowerCase (title (exCorpusShadowed ! 2)))
   \<and> truthy (genre_name (exCorpusShadowed ! 2))
   \<and> getRecommendationsByTitle ''x'' exCorpusShadowed 10 = []"
proof -
  have h1: "(1::nat) < length exCorpusShadowed"
    by (simp add: exCorpusShadowed_def)
  have h2: "sublist (toLowerCase ''x'') (toLowerCase (title (exCorpusShadowed ! 1)))"
    by (simp add: exCorpusShadowed_def mkBook_def)
  have g3: "\<not> sublist (toLowerCase ''x'') (toLowerCase (title (exCorpusShadowed ! 0)))"
    by (simp add: exCorpusShadowed_def mkBook_def lower_x lower_z not_sublist_x_z)
  then have h3: "\<forall>j < (1::nat). \<not> sublist (toLowerCase ''x'') (toLowerCase (title (exCorpusShadowed ! j)))"
    by simp
  have h4: "\<not> truthy (genre_name (exCorpusShadowed ! 1))"
    by (simp add: exCorpusShadowed_def mkBook_def truthy_def)
  have l1: "sublist (toLowerCase ''x'') (toLowerCase (title (exCorpusShadowed ! 2)))"
    by (simp add: exCorpusShadowed_def mkBook_def lower_x lower_xy sublist_Cons_right)
  have l2: "truthy (genre_name (exCorpusShadowed ! 2))"
    by (simp add: exCorpusShadowed_def mkBook_def truthy_def)
  from byTitle_first_match_without_genre [OF exCorpusShadowed_ids h1 h2 h3 h4, of 10]
    exCorpusShadowed_ids h1 h2 g3 h4 l1 l2
  show ?thesis by (intro conjI)
qed

section \<open>Keys of the combined vectors\<close>

lemma keys_update: "map fst (AList.update k v al) = setAdd k (map fst al)"
  by (simp add: update_keys setAdd_def)

lemma keys_fold_update:
  "map fst (fold (\<lambda>x m. AList.update (key x) (val x) m) xs m0)
     = fold (\<lambda>x ks. setAdd (key x) ks) xs (map fst m0)"
  by (induction xs arbitrary: m0) (simp_all add: keys_update)

lemma set_fold_setAdd:
  "set (fold (\<lambda>x ks. setAdd (key x) ks) xs ks0) = set ks0 \<union> key ` set xs"
  by (induction xs arbitrary: ks0) (auto simp: setAdd_def)

lemma distinct_fold_setAdd:
  "distinct ks0 \<Longrightarrow> distinct (fold (\<lambda>x ks. setAdd (key x) ks) xs ks0)"
  by (induction xs arbitrary: ks0) (simp_all add: setAdd_def)

lemma fold_enumerate_fst:
  "fold (\<lambda>x ks. f (fst x) ks) (enumerate n xs) ks0 = fold f [n..<n + length xs] ks0"
proof (induction xs arbitrary: n ks0)
  case Nil
  show ?case by simp
next
  case (Cons x xs)
  have "[n..<n + length (x # xs)] = n # [Suc n..<Suc n + length xs]"
    by (subst upt_conv_Cons) simp_all
  then show ?case by (simp only: enumerate_simps fold_simps fst_conv comp_apply Cons.IH)
qed

lemma fold_enumerate_keys:
  "fold (\<lambda>x ks. setAdd (genreKey (fst x)) ks) (enumerate 0 gv) ks0
     = fold (\<lambda>index ks. setAdd (genreKey index) ks) [0..<length gv] ks0"
  using fold_enumerate_fst [of "\<lambda>index ks. setAdd (genreKey index) ks" 0 gv ks0] by simp

lemma keys_combineVectors:
  "map fst (combineVectors tv gv sv allTitleTerms allSynopsisTerms)
     = keyList allTitleTerms (length gv) allSynopsisTerms"
proof -
  have pair: "(\<lambda>(index, v) m. AList.update (genreKey index) v m)
                = (\<lambda>x m. AList.update (genreKey (fst x)) (snd x) m)"
    by (simp add: fun_eq_iff split_def)
  show ?thesis
    unfolding combineVectors_def Let_def keyList_def pair
    by (simp only: keys_fold_update fold_enumerate_keys list.map)
qed

lemma set_keyList:
  "set (keyList allTitleTerms genreCount allSynopsisTerms)
     = titleKey ` set allTitleTerms \<union> genreKey ` {0..<genreCount}
         \<union> synopsisKey ` set allSynopsisTerms"
  by (simp add: keyList_def set_fold_setAdd)

lemma distinct_keyList: "distinct (keyList allTitleTerms genreCount allSynopsisTerms)"
  by (simp add: keyList_def distinct_fold_setAdd)

lemma length_createGenreVector: "length (createGenreVector book allGenres) = length allGenres"
  by (simp add: createGenreVector_def Let_def)

lemma length_combinedVectors: "length (combinedVectors vb) = length vb"
  by (simp add: combinedVectors_def Let_def)

lemma nth_combinedVectors:
  "i < length vb \<Longrightarrow>
     combinedVectors vb ! i =
       combineVectors (getOrEmpty (titleTFIDF vb) i)
         (createGenreVector (vb ! i) (extractAllGenres vb))
         (getOrEmpty (synopsisTFIDF vb) i)
         (allTerms (titleTFIDF vb)) (allTerms (synopsisTFIDF vb))"
  by (simp add: combinedVectors_def Let_def nth_enumerate_eq)

lemma keys_nth_combinedVectors:
  "i < length vb \<Longrightarrow>
     map fst (combinedVectors vb ! i)
       = keyList (allTerms (titleTFIDF vb)) (length (extractAllGenres vb))
           (allTerms (synopsisTFIDF vb))"
  by (simp only: nth_combinedVectors keys_combineVectors length_createGenreVector)

text \<open>
  C6: within one call, every combined vector built for the valid books has each key
  once, and its key set is the title-tagged terms of the title vocabulary, the
  genre-tagged indices of the genre vocabulary and the synopsis-tagged terms of the
  synopsis vocabulary; so all combined vectors of the call have the same key set.
\<close>

theorem combined_vectors_share_keys:
  "\<forall>v \<in> set (combinedVectors (validBooks allBooks)).
     distinct (map fst v)
     \<and> set (map fst v) =
         titleKey ` set (allTerms (titleTFIDF (validBooks allBooks)))
         \<union> genreKey ` {0..<length (extractAllGenres (validBooks allBooks))}
         \<union> synopsisKey ` set (allTerms (synopsisTFIDF (validBooks allBooks)))"
proof
  fix v
  assume "v \<in> set (combinedVectors (validBooks allBooks))"
  then obtain i where i: "i < length (combinedVectors (validBooks allBooks))"
    and v: "v = combinedVectors (validBooks allBooks) ! i"
    by (metis in_set_conv_nth)
  from i have "i < length (validBooks allBooks)"
    by (simp only: length_combinedVectors)
  from keys_nth_combinedVectors [OF this] v
  have "map fst v = keyList (allTerms (titleTFIDF (validBooks allBooks)))
           (length (extractAllGenres (validBooks allBooks)))
           (allTerms (synopsisTFIDF (validBooks allBooks)))"
    by simp
  then show "distinct (map fst v)
     \<and> set (map fst v) =
         titleKey ` set (allTerms (titleTFIDF (validBooks allBooks)))
         \<union> genreKey ` {0..<length (extractAllGenres (validBooks allBooks))}
         \<union> synopsisKey ` set (allTerms (synopsisTFIDF (validBooks allBooks)))"
    by (simp only: distinct_keyList set_keyList simp_thms)
qed

theorem combined_vectors_share_keys_witness:
  "combinedVectors (validBooks exCorpusDistinct) \<noteq> []
   \<and> distinct (map fst (hd (combinedVectors (validBooks exCorpusDistinct))))
   \<and> set (map fst (hd (combinedVectors (validBooks exCorpusDistinct)))) =
         titleKey ` set (allTerms (titleTFIDF (validBooks exCorpusDistinct)))
         \<union> genreKey ` {0..<length (extractAllGenres (validBooks exCorpusDistinct))}
         \<union> synopsisKey ` set (allTerms (synopsisTFIDF (validBooks exCorpusDistinct)))"
proof -
  have "length (combinedVectors (validBooks exCorpusDistinct)) = 2"
    by (simp add: length_combinedVectors exCorpusDistinct_valid) (simp add: exCorpusDistinct_def)
  then have ne: "combinedVectors (validBooks exCorpusDistinct) \<noteq> []"
    by auto
  then have "hd (combinedVectors (validBooks exCorpusDistinct))
               \<in> set (combinedVectors (validBooks exCorpusDistinct))"
    by (rule hd_in_set)
  with combined_vectors_share_keys [of exCorpusDistinct] ne show ?thesis
    by blast
qed

section \<open>Range of the similarity\<close>

lemma sum_squares_nonneg: "0 \<le> sum_list (map (\<lambda>x::real. x * x) xs)"
  by (induction xs) simp_all

lemma cauchy_schwarz_step:
  fixes x y S A B :: real
  assumes S: "S\<^sup>2 \<le> A * B" and A: "0 \<le> A" and B: "0 \<le> B"
  shows "(x * y + S)\<^sup>2 \<le> (x * x + A) * (y * y + B)"
proof -
  let ?u = "x * x * B" and ?v = "y * y * A"
  have uv: "0 \<le> ?u + ?v"
    using A B by simp
  have "(2 * (x * y) * S)\<^sup>2 = 4 * (x * x) * (y * y) * S\<^sup>2"
    by (simp add: power2_eq_square algebra_simps)
  also have "\<dots> \<le> 4 * (x * x) * (y * y) * (A * B)"
    using S by (intro mult_left_mono) simp_all
  also have "\<dots> = 4 * ?u * ?v"
    by (simp add: algebra_simps)
  also have "\<dots> \<le> (?u + ?v)\<^sup>2"
  proof -
    have "0 \<le> (?u - ?v)\<^sup>2" by simp
    then show ?thesis by (simp add: power2_eq_square algebra_simps)
  qed
  finally have "(2 * (x * y) * S)\<^sup>2 \<le> (?u + ?v)\<^sup>2" .
  then have cross: "2 * (x * y) * S \<le> ?u + ?v"
    using uv by (rule power2_le_imp_le)
  have "(x * y + S)\<^sup>2 = (x * x) * (y * y) + 2 * (x * y) * S + S\<^sup>2"
    by (simp add: power2_eq_square algebra_simps)
  also have "\<dots> \<le> (x * x) * (y * y) + (?u + ?v) + A * B"
    using cross S by simp
  also have "\<dots> = (x * x + A) * (y * y + B)"
    by (simp add: algebra_simps)
  finally show ?thesis .
qed

lemma cauchy_schwarz_lists:
  fixes xs ys :: "real list"
  assumes "length xs = length ys"
  shows "(sum_list (map2 (*) xs ys))\<^sup>2
           \<le> sum_list (map (\<lambda>x. x * x) xs) * sum_list (map (\<lambda>y. y * y) ys)"
  using assms
proof (induction xs ys rule: list_induct2)
  case Nil
  show ?case by simp
next
  case (Cons x xs y ys)
  from cauchy_schwarz_step [OF Cons.IH sum_squares_nonneg sum_squares_nonneg, of x y]
  show ?case by simp
qed

lemma getOr0_distinct:
  "distinct (map fst b) \<Longrightarrow> i < length b \<Longrightarrow> getOr0 b (fst (b ! i)) = snd (b ! i)"
proof -
  assume d: "distinct (map fst b)" and i: "i < length b"
  then have "(fst (b ! i), snd (b ! i)) \<in> set b" by simp
  with d have "map_of b (fst (b ! i)) = Some (snd (b ! i))"
    by (rule map_of_is_SomeI)
  then show ?thesis by (simp add: getOr0_def)
qed

lemma dotProduct_shared_keys:
  assumes keys: "map fst a = map fst b" and d: "distinct (map fst b)"
  shows "dotProduct a b = sum_list (map2 (*) (map snd a) (map snd b))"
proof -
  from keys have len: "length a = length b"
    by (metis length_map)
  have "map (\<lambda>(k, v). v * getOr0 b k) a = map2 (*) (map snd a) (map snd b)"
  proof (rule nth_equalityI)
    show "length (map (\<lambda>(k, v). v * getOr0 b k) a) = length (map2 (*) (map snd a) (map snd b))"
      using len by simp
  next
    fix i
    assume "i < length (map (\<lambda>(k, v). v * getOr0 b k) a)"
    then have i: "i < length a" by simp
    with len have ib: "i < length b" by simp
    have "fst (a ! i) = fst (b ! i)"
      using keys i ib by (metis nth_map)
    then have "getOr0 b (fst (a ! i)) = snd (b ! i)"
      using getOr0_distinct [OF d ib] by simp
    then show "map (\<lambda>(k, v). v * getOr0 b k) a ! i = map2 (*) (map snd a) (map snd b) ! i"
      using i ib by (simp add: split_def)
  qed
  then show ?thesis by (simp add: dotProduct_def)
qed

lemma euclideanNorm_values:
  "euclideanNorm a = sqrt (sum_list (map (\<lambda>x. x * x) (map snd a)))"
  by (simp add: euclideanNorm_def comp_def split_def)

lemma sum_list_products_nonneg:
  "\<forall>x \<in> set xs. (0::real) \<le> x \<Longrightarrow> \<forall>y \<in> set ys. 0 \<le> y \<Longrightarrow> 0 \<le> sum_list (map2 (*) xs ys)"
proof (induction xs arbitrary: ys)
  case Nil
  show ?case by simp
next
  case (Cons x xs)
  show ?case
  proof (cases ys)
    case Nil
    then show ?thesis by simp
  next
    case (Cons y ys')
    with Cons.prems Cons.IH [of ys'] show ?thesis by simp
  qed
qed

lemma quotient_in_unit_interval:
  fixes S A B :: real
  assumes cs: "S\<^sup>2 \<le> A * B" and S: "0 \<le> S" and A: "0 < A" and B: "0 < B"
  shows "0 \<le> S / (sqrt A * sqrt B) \<and> S / (sqrt A * sqrt B) \<le> 1"
proof -
  have pos: "0 < sqrt A * sqrt B"
    using A B by (intro mult_pos_pos) simp_all
  have "(sqrt A * sqrt B)\<^sup>2 = A * B"
    using A B by (simp add: power_mult_distrib)
  with cs have "S\<^sup>2 \<le> (sqrt A * sqrt B)\<^sup>2"
    by simp
  then have "S \<le> sqrt A * sqrt B"
  proof (rule power2_le_imp_le)
    show "0 \<le> sqrt A * sqrt B" using pos by simp
  qed
  then have "S / (sqrt A * sqrt B) \<le> 1"
    using pos by (simp add: divide_le_eq)
  moreover have "0 \<le> S / (sqrt A * sqrt B)"
    using S pos by simp
  ultimately show ?thesis by simp
qed

lemma cosineSimilarity_bounds:
  assumes keys: "map fst a = map fst b" and d: "distinct (map fst b)"
    and na: "\<forall>p \<in> set a. 0 \<le> snd p" and nb: "\<forall>p \<in> set b. 0 \<le> snd p"
  shows "0 \<le> cosineSimilarity a b \<and> cosineSimilarity a b \<le> 1"
proof (cases "euclideanNorm a = 0 \<or> euclideanNorm b = 0")
  case True
  then show ?thesis by (simp add: cosineSimilarity_def)
next
  case False
  define xs where "xs = map snd a"
  define ys where "ys = map snd b"
  define S where "S = sum_list (map2 (*) xs ys)"
  define A where "A = sum_list (map (\<lambda>x. x * x) xs)"
  define B where "B = sum_list (map (\<lambda>y. y * y) ys)"
  have len: "length xs = length ys"
    unfolding xs_def ys_def using keys by (metis length_map)
  have dot: "dotProduct a b = S"
    unfolding S_def xs_def ys_def using keys d by (rule dotProduct_shared_keys)
  have A0: "0 \<le> A" and B0: "0 \<le> B"
    unfolding A_def B_def by (rule sum_squares_nonneg)+
  have "\<forall>x \<in> set xs. 0 \<le> x"
    unfolding xs_def using na by simp
  moreover have "\<forall>y \<in> set ys. 0 \<le> y"
    unfolding ys_def using nb by simp
  ultimately have S0: "0 \<le> S"
    unfolding S_def by (rule sum_list_products_nonneg)
  have normA: "euclideanNorm a = sqrt A"
    unfolding A_def xs_def by (rule euclideanNorm_values)
  have normB: "euclideanNorm b = sqrt B"
    unfolding B_def ys_def by (rule euclideanNorm_values)
  from False have "sqrt A \<noteq> 0" "sqrt B \<noteq> 0"
    unfolding normA normB by blast+
  then have "A \<noteq> 0" "B \<noteq> 0"
    by simp_all
  with A0 B0 have A: "0 < A" and B: "0 < B"
    by linarith+
  have cs: "S\<^sup>2 \<le> A * B"
    unfolding S_def A_def B_def using len by (rule cauchy_schwarz_lists)
  have "cosineSimilarity a b = S / (sqrt A * sqrt B)"
    unfolding cosineSimilarity_def dot normA normB
    using \<open>sqrt A \<noteq> 0\<close> \<open>sqrt B \<noteq> 0\<close> by simp
  with quotient_in_unit_interval [OF cs S0 A B] show ?thesis
    by simp
qed

lemma set_update_subset: "set (AList.update k v al) \<subseteq> insert (k, v) (set al)"
  by (induction al) auto

lemma values_fold_update:
  assumes "\<forall>x \<in> set xs. (0::real) \<le> val x" and "\<forall>p \<in> set m0. 0 \<le> snd p"
  shows "\<forall>p \<in> set (fold (\<lambda>x m. AList.update (key x) (val x) m) xs m0). 0 \<le> snd p"
  using assms
proof (induction xs arbitrary: m0)
  case Nil
  then show ?case by simp
next
  case (Cons x xs)
  have "\<forall>p \<in> set (AList.update (key x) (val x) m0). 0 \<le> snd p"
  proof
    fix p
    assume "p \<in> set (AList.update (key x) (val x) m0)"
    then have "p = (key x, val x) \<or> p \<in> set m0"
      using set_update_subset [of "key x" "val x" m0] by auto
    with Cons.prems show "0 \<le> snd p" by auto
  qed
  with Cons.prems Cons.IH [of "AList.update (key x) (val x) m0"] show ?case
    by simp
qed

lemma getOr0_nonneg: "\<forall>p \<in> set m. 0 \<le> snd p \<Longrightarrow> 0 \<le> getOr0 m k"
proof (cases "map_of m k")
  case None
  then show ?thesis by (simp add: getOr0_def)
next
  case (Some v)
  assume nn: "\<forall>p \<in> set m. 0 \<le> snd p"
  from Some have "(k, v) \<in> set m" by (rule map_of_SomeD)
  with nn have "0 \<le> v" by force
  with Some show ?thesis by (simp add: getOr0_def)
qed

lemma createGenreVector_nonneg: "\<forall>x \<in> set (createGenreVector book allGenres). 0 \<le> x"
  by (auto simp: createGenreVector_def Let_def)

lemma enumerate_snd_nonneg:
  "\<forall>x \<in> set gv. (0::real) \<le> x \<Longrightarrow> \<forall>p \<in> set (enumerate n gv). 0 \<le> snd p"
  by (auto simp: in_set_enumerate_eq)

lemma combineVectors_nonneg:
  assumes tv: "\<forall>p \<in> set tv. 0 \<le> snd p" and sv: "\<forall>p \<in> set sv. 0 \<le> snd p"
    and gv: "\<forall>x \<in> set gv. 0 \<le> x"
  shows "\<forall>p \<in> set (combineVectors tv gv sv allTitleTerms allSynopsisTerms). 0 \<le> snd p"
proof -
  have pair: "(\<lambda>(index, v) m. AList.update (genreKey index) v m)
                = (\<lambda>x m. AList.update (genreKey (fst x)) (snd x) m)"
    by (simp add: fun_eq_iff split_def)
  define c1 where
    "c1 = fold (\<lambda>term m. AList.update (titleKey term) (getOr0 tv term) m) allTitleTerms []"
  define c2 where
    "c2 = fold (\<lambda>x m. AList.update (genreKey (fst x)) (snd x) m) (enumerate 0 gv) c1"
  have n1: "\<forall>p \<in> set c1. 0 \<le> snd p"
    unfolding c1_def
    by (rule values_fold_update) (simp_all add: getOr0_nonneg [OF tv])
  have n2: "\<forall>p \<in> set c2. 0 \<le> snd p"
    unfolding c2_def
    by (rule values_fold_update [OF enumerate_snd_nonneg [OF gv] n1])
  have "\<forall>p \<in> set (fold (\<lambda>term m. AList.update (synopsisKey term) (getOr0 sv term) m)
                        allSynopsisTerms c2). 0 \<le> snd p"
    by (rule values_fold_update [OF _ n2]) (simp add: getOr0_nonneg [OF sv])
  then show ?thesis
    unfolding combineVectors_def Let_def pair c2_def c1_def .
qed

lemma documentFrequency_bounds:
  assumes "ts \<in> set docs" and "t \<in> set ts"
  shows "1 \<le> documentFrequency docs t \<and> documentFrequency docs t \<le> length docs"
proof -
  from assms have "ts \<in> set (filter (\<lambda>d. t \<in> set d) docs)" by simp
  then have "filter (\<lambda>d. t \<in> set d) docs \<noteq> []"
    by (metis empty_iff empty_set)
  then have "1 \<le> length (filter (\<lambda>d. t \<in> set d) docs)"
    by (simp add: Suc_le_eq)
  then show ?thesis by (simp add: documentFrequency_def)
qed

lemma inverseDocumentFrequency_nonneg:
  assumes "ts \<in> set docs" and "t \<in> set ts"
  shows "0 \<le> inverseDocumentFrequency docs t"
proof -
  from documentFrequency_bounds [OF assms]
  have df: "1 \<le> documentFrequency docs t" "documentFrequency docs t \<le> length docs"
    by simp_all
  then have "max (documentFrequency docs t) 1 = documentFrequency docs t"
    by simp
  moreover have "1 \<le> real (length docs) / real (documentFrequency docs t)"
    using df by (simp add: le_divide_eq)
  ultimately show ?thesis
    by (simp only: inverseDocumentFrequency_def ln_ge_zero)
qed

lemma tfidfVector_nonneg:
  assumes "ts \<in> set docs"
  shows "\<forall>p \<in> set (tfidfVector docs ts). 0 \<le> snd p"
proof
  fix p
  assume "p \<in> set (tfidfVector docs ts)"
  then obtain t where t: "t \<in> set ts"
    and p: "p = (t, termFrequency ts t * inverseDocumentFrequency docs t)"
    by (auto simp: tfidfVector_def)
  have "0 \<le> termFrequency ts t"
    by (simp add: termFrequency_def)
  with inverseDocumentFrequency_nonneg [OF assms t] p show "0 \<le> snd p"
    by simp
qed

lemma calculateTFIDF_nonneg:
  "\<forall>p \<in> set (getOrEmpty (calculateTFIDF documents) i). 0 \<le> snd p"
proof (cases "map_of (calculateTFIDF documents) i")
  case None
  then show ?thesis by (simp add: getOrEmpty_def)
next
  case (Some vec)
  then have "(i, vec) \<in> set (calculateTFIDF documents)" by (rule map_of_SomeD)
  then have "vec \<in> set (map (tfidfVector (map extractTerms documents)) (map extractTerms documents))"
    by (auto simp: calculateTFIDF_def Let_def in_set_enumerate_eq)
  then obtain ts where "ts \<in> set (map extractTerms documents)"
    and "vec = tfidfVector (map extractTerms documents) ts"
    by auto
  then have "\<forall>p \<in> set vec. 0 \<le> snd p"
    using tfidfVector_nonneg by blast
  with Some show ?thesis by (simp add: getOrEmpty_def)
qed

lemma nth_combinedVectors_nonneg:
  "i < length vb \<Longrightarrow> \<forall>p \<in> set (combinedVectors vb ! i). 0 \<le> snd p"
  by (simp only: nth_combinedVectors titleTFIDF_def synopsisTFIDF_def)
     (intro combineVectors_nonneg calculateTFIDF_nonneg createGenreVector_nonneg)

text \<open>
  C7: every similarity in the result of \<^verbatim>\<open>getRecommendations\<close> lies between 0 and 1.
  The similarity is the cosine of two combined vectors over the same keys whose
  components are not negative.
\<close>

theorem similarity_in_unit_interval:
  "\<forall>r \<in> set (getRecommendations targetBook allBooks topN).
     0 \<le> similarity r \<and> similarity r \<le> 1"
proof
  fix r
  assume r: "r \<in> set (getRecommendations targetBook allBooks topN)"
  let ?vb = "validBooks allBooks"
  show "0 \<le> similarity r \<and> similarity r \<le> 1"
  proof (cases "findIndex (\<lambda>book. book_id book = book_id targetBook) ?vb")
    case None
    with r show ?thesis by (simp add: getRecommendations_not_found)
  next
    case (Some ti)
    from findIndex_Some [OF Some] have ti: "ti < length ?vb" by simp
    from result_entry [OF Some r] obtain i where i: "i < length ?vb"
      and sim: "similarity r =
                  cosineSimilarity (combinedVectors ?vb ! ti) (combinedVectors ?vb ! i)"
      by blast
    have keys: "map fst (combinedVectors ?vb ! ti) = map fst (combinedVectors ?vb ! i)"
      by (simp only: keys_nth_combinedVectors [OF ti] keys_nth_combinedVectors [OF i])
    have d: "distinct (map fst (combinedVectors ?vb ! i))"
      by (simp only: keys_nth_combinedVectors [OF i] distinct_keyList)
    from cosineSimilarity_bounds
           [OF keys d nth_combinedVectors_nonneg [OF ti] nth_combinedVectors_nonneg [OF i]]
    show ?thesis by (simp only: sim)
  qed
qed

theorem similarity_in_unit_interval_witness:
  "getRecommendations (mkBook 1 ''x'' (Some ''g'')) exCorpusDistinct 10 \<noteq> []
   \<and> 0 \<le> similarity (hd (getRecommendations (mkBook 1 ''x'' (Some ''g'')) exCorpusDistinct 10))
   \<and> similarity (hd (getRecommendations (mkBook 1 ''x'' (Some ''g'')) exCorpusDistinct 10)) \<le> 1"
proof -
  let ?res = "getRecommendations (mkBook 1 ''x'' (Some ''g'')) exCorpusDistinct 10"
  have ne: "?res \<noteq> []"
    using exCorpusDistinct_length by auto
  then have "hd ?res \<in> set ?res"
    by (rule hd_in_set)
  with similarity_in_unit_interval [of "mkBook 1 ''x'' (Some ''g'')" exCorpusDistinct 10] ne
  show ?thesis by blast
qed

section \<open>Ties\<close>

lemma filter_withSimilarity:
  "filter (\<lambda>r. similarity r = s) (map (\<lambda>item. withSimilarity (fst item) (snd item)) ys)
     = map (\<lambda>item. withSimilarity (fst item) (snd item)) (filter (\<lambda>item. snd item = s) ys)"
  by (induction ys) (simp_all add: similarity_withSimilarity)

lemma map_bookOf_withSimilarity:
  "map bookOf (map (\<lambda>item. withSimilarity (fst item) (snd item)) ys) = map fst ys"
  by (induction ys) (simp_all add: bookOf_withSimilarity)

lemma filter_sortDescending:
  "filter (\<lambda>item. snd item = s) (sortDescending xs) = filter (\<lambda>item. snd item = s) xs"
proof -
  have "filter (\<lambda>item. - snd item = - s) (sort_key (\<lambda>p. - snd p) xs)
          = filter (\<lambda>item. - snd item = - s) xs"
    by (rule sort_key_stable)
  then show ?thesis by (simp add: sortDescending_def)
qed

lemma ties_keep_order:
  "prefix
     (map bookOf (filter (\<lambda>r. similarity r = s)
        (map (\<lambda>item. withSimilarity (fst item) (snd item)) (slice0 (sortDescending xs) n))))
     (map fst (filter (\<lambda>item. snd item = s) xs))"
proof -
  obtain m where m: "slice0 (sortDescending xs) n = take m (sortDescending xs)"
    using slice0_take by blast
  have "prefix (take m (sortDescending xs)) (sortDescending xs)"
    by (rule take_is_prefix)
  then have "prefix (filter (\<lambda>item. snd item = s) (take m (sortDescending xs)))
               (filter (\<lambda>item. snd item = s) (sortDescending xs))"
    by (rule filter_mono_prefix)
  then have "prefix (filter (\<lambda>item. snd item = s) (take m (sortDescending xs)))
               (filter (\<lambda>item. snd item = s) xs)"
    by (simp only: filter_sortDescending)
  then have "prefix (map fst (filter (\<lambda>item. snd item = s) (take m (sortDescending xs))))
               (map fst (filter (\<lambda>item. snd item = s) xs))"
    by (rule map_mono_prefix)
  then show ?thesis
    by (simp only: m filter_withSimilarity map_bookOf_withSimilarity)
qed

lemma map_fst_scoreBooks: "map fst (scoreBooks clock k prof allBooks cs) = cs"
  by (induction cs arbitrary: k) simp_all

lemma map_fst_similarities:
  assumes "ti < length vb"
  shows "map fst (similarities vb cvs ti) = take ti vb @ drop (Suc ti) vb"
proof -
  have split: "[0..<length vb] = [0..<ti] @ [ti] @ [Suc ti..<length vb]"
    using assms by (metis append_Cons append_Nil le_add2 le_add_same_cancel2
        less_imp_add_positive upt_add_eq_append upt_conv_Cons)
  have f1: "filter (\<lambda>i. i \<noteq> ti) [0..<ti] = [0..<ti]"
    by (simp add: filter_id_conv)
  have f2: "filter (\<lambda>i. i \<noteq> ti) [Suc ti..<length vb] = [Suc ti..<length vb]"
    by (simp add: filter_id_conv)
  have "map fst (similarities vb cvs ti)
          = map ((!) vb) (filter (\<lambda>i. i \<noteq> ti) [0..<length vb])"
    by (simp add: similarities_def comp_def)
  also have "\<dots> = map ((!) vb) [0..<ti] @ map ((!) vb) [Suc ti..<length vb]"
    by (simp only: split filter_append f1 f2 map_append) simp
  also have "map ((!) vb) [0..<ti] = take ti vb"
    using assms by (intro nth_equalityI) simp_all
  also have "map ((!) vb) [Suc ti..<length vb] = drop (Suc ti) vb"
    by (intro nth_equalityI) simp_all
  finally show ?thesis .
qed

text \<open>
  C8: for every score \<open>s\<close>, the returned entries with score \<open>s\<close> are, in this order, the
  first of the scored items with score \<open>s\<close> in input order. For
  \<^verbatim>\<open>getPersonalizedRecommendations\<close> the scored items are the candidate pool in its
  order; for \<^verbatim>\<open>getRecommendations\<close> they are the books with genre labels in corpus
  order, the target left out.
\<close>

theorem ties_keep_input_order:
  "prefix
     (map bookOf (filter (\<lambda>r. similarity r = s)
        (getPersonalizedRecommendations clock prof candidateBooks allBooks topN)))
     (map fst (filter (\<lambda>item. snd item = s)
        (scoreBooks clock 0 prof allBooks candidateBooks)))
   \<and> map fst (scoreBooks clock 0 prof allBooks candidateBooks) = candidateBooks
   \<and> (findIndex (\<lambda>book. book_id book = book_id targetBook) (validBooks allBooks) = Some targetIndex
        \<longrightarrow>
        prefix
          (map bookOf (filter (\<lambda>r. similarity r = s)
             (getRecommendations targetBook allBooks topN)))
          (map fst (filter (\<lambda>item. snd item = s)
             (similarities (validBooks allBooks) (combinedVectors (validBooks allBooks))
                targetIndex)))
        \<and> map fst (similarities (validBooks allBooks) (combinedVectors (validBooks allBooks))
                       targetIndex)
            = take targetIndex (validBooks allBooks) @ drop (Suc targetIndex) (validBooks allBooks))"
proof (intro conjI impI)
  show "prefix
     (map bookOf (filter (\<lambda>r. similarity r = s)
        (getPersonalizedRecommendations clock prof candidateBooks allBooks topN)))
     (map fst (filter (\<lambda>item. snd item = s)
        (scoreBooks clock 0 prof allBooks candidateBooks)))"
    by (simp only: personalized_unfold ties_keep_order)
  show "map fst (scoreBooks clock 0 prof allBooks candidateBooks) = candidateBooks"
    by (rule map_fst_scoreBooks)
next
  assume found: "findIndex (\<lambda>book. book_id book = book_id targetBook) (validBooks allBooks)
                   = Some targetIndex"
  show "prefix
          (map bookOf (filter (\<lambda>r. similarity r = s)
             (getRecommendations targetBook allBooks topN)))
          (map fst (filter (\<lambda>item. snd item = s)
             (similarities (validBooks allBooks) (combinedVectors (validBooks allBooks))
                targetIndex)))"
    by (simp only: getRecommendations_found [OF found] ties_keep_order)
  from findIndex_Some [OF found] have "targetIndex < length (validBooks allBooks)"
    by simp
  then show "map fst (similarities (validBooks allBooks) (combinedVectors (validBooks allBooks))
                       targetIndex)
            = take targetIndex (validBooks allBooks) @ drop (Suc targetIndex) (validBooks allBooks)"
    by (rule map_fst_similarities)
qed

text \<open>
  Two examples with a tie. In the candidate pool of the first, the two books without a
  timestamp both score 0 and the third book scores 0.3: the sort moves the third book
  to the front and leaves the two tied books in pool order. In the corpus of the
  second, the two books other than the target have the same title and genre, hence the
  same similarity to the target.
\<close>

lemma scoreBook_plain: "scoreBook reading [] [] (mkBook i t None) = 0"
  by (simp add: scoreBook_def mkBook_def Let_def truthy_def getOr0_def bookPopularity_def
      maxPopularity_def)

lemma scoreBook_timed: "scoreBook 0 [] [] exTimedBook = 3 / 10"
  by (simp add: scoreBook_def exTimedBook_def Let_def truthy_def getOr0_def bookPopularity_def
      maxPopularity_def msPerDay_def)

lemma created_at_plain: "created_at (mkBook i t g) = None"
  by (simp add: mkBook_def)

lemma created_at_timed: "created_at exTimedBook = Some 0"
  by (simp add: exTimedBook_def)

lemma exPoolTie_scored:
  "scoreBooks zeroClock 0 [] [] exPoolTie
     = [(mkBook 1 ''a'' None, 0), (mkBook 2 ''b'' None, 0), (exTimedBook, 3 / 10)]"
  by (simp add: exPoolTie_def scoreBook_plain scoreBook_timed created_at_plain zeroClock_def)

lemma exPoolTie_result:
  "getPersonalizedRecommendations zeroClock [] exPoolTie [] 10
     = [withSimilarity exTimedBook (3 / 10), withSimilarity (mkBook 1 ''a'' None) 0,
        withSimilarity (mkBook 2 ''b'' None) 0]"
  by (simp add: personalized_unfold exPoolTie_scored sortDescending_def slice0_def
      normalizedTopN_def)

lemma map_of_enumerate_nth:
  "i < length xs \<Longrightarrow> map_of (enumerate 0 xs) i = Some (xs ! i)"
proof (rule map_of_is_SomeI)
  show "distinct (map fst (enumerate 0 xs))" by simp
  assume "i < length xs"
  then show "(i, xs ! i) \<in> set (enumerate 0 xs)"
    by (simp add: in_set_enumerate_eq)
qed

lemma getOrEmpty_calculateTFIDF:
  "i < length documents \<Longrightarrow>
     getOrEmpty (calculateTFIDF documents) i
       = tfidfVector (map extractTerms documents) (extractTerms (documents ! i))"
  by (simp add: getOrEmpty_def calculateTFIDF_def Let_def map_of_enumerate_nth)

lemma createGenreVector_cong:
  "genre_name a = genre_name b \<Longrightarrow> createGenreVector a allGenres = createGenreVector b allGenres"
  by (simp add: createGenreVector_def)

lemma nth_combinedVectors_cong:
  assumes i: "i < length vb" and j: "j < length vb"
    and t: "title (vb ! i) = title (vb ! j)"
    and s: "synopsis (vb ! i) = synopsis (vb ! j)"
    and g: "genre_name (vb ! i) = genre_name (vb ! j)"
  shows "combinedVectors vb ! i = combinedVectors vb ! j"
proof -
  have "getOrEmpty (titleTFIDF vb) i = getOrEmpty (titleTFIDF vb) j"
    using i j t by (simp add: titleTFIDF_def getOrEmpty_calculateTFIDF)
  moreover have "getOrEmpty (synopsisTFIDF vb) i = getOrEmpty (synopsisTFIDF vb) j"
    using i j s by (simp add: synopsisTFIDF_def getOrEmpty_calculateTFIDF)
  moreover have "createGenreVector (vb ! i) (extractAllGenres vb)
                   = createGenreVector (vb ! j) (extractAllGenres vb)"
    using g by (rule createGenreVector_cong)
  ultimately show ?thesis
    by (simp only: nth_combinedVectors [OF i] nth_combinedVectors [OF j])
qed

lemma exCorpusTie_valid: "validBooks exCorpusTie = exCorpusTie"
  by (simp add: validBooks_def exCorpusTie_def mkBook_def truthy_def)

lemma exCorpusTie_index:
  "findIndex (\<lambda>book. book_id book = book_id (mkBook 1 ''x'' (Some ''g''))) (validBooks exCorpusTie)
     = Some 0"
  by (simp add: exCorpusTie_valid) (simp add: exCorpusTie_def mkBook_def)

lemma exCorpusTie_vectors:
  "combinedVectors exCorpusTie ! 2 = combinedVectors exCorpusTie ! 1"
  by (rule nth_combinedVectors_cong) (simp_all add: exCorpusTie_def mkBook_def)

lemma exCorpusTie_similarities:
  "similarities (validBooks exCorpusTie) (combinedVectors (validBooks exCorpusTie)) 0
     = [(mkBook 2 ''y'' (Some ''g''), exTieScore), (mkBook 3 ''y'' (Some ''g''), exTieScore)]"
proof -
  have len: "length exCorpusTie = 3"
    by (simp add: exCorpusTie_def)
  have idx: "filter (\<lambda>i. i \<noteq> 0) [0..<3] = [1, 2]"
    by (simp add: upt_rec)
  have "similarities exCorpusTie (combinedVectors exCorpusTie) 0
          = [(exCorpusTie ! 1,
              cosineSimilarity (combinedVectors exCorpusTie ! 0) (combinedVectors exCorpusTie ! 1)),
             (exCorpusTie ! 2,
              cosineSimilarity (combinedVectors exCorpusTie ! 0) (combinedVectors exCorpusTie ! 2))]"
    by (simp only: similarities_def len idx list.map)
  then show ?thesis
    by (simp only: exCorpusTie_valid exTieScore_def exCorpusTie_vectors)
       (simp add: exCorpusTie_def)
qed

lemma exCorpusTie_result:
  "getRecommendations (mkBook 1 ''x'' (Some ''g'')) exCorpusTie 10
     = [withSimilarity (mkBook 2 ''y'' (Some ''g'')) exTieScore,
        withSimilarity (mkBook 3 ''y'' (Some ''g'')) exTieScore]"
  by (simp add: getRecommendations_found [OF exCorpusTie_index] exCorpusTie_similarities
      sortDescending_def slice0_def)

theorem ties_keep_input_order_witness:
  "map similarity (getPersonalizedRecommendations zeroClock [] exPoolTie [] 10) = [3 / 10, 0, 0]
   \<and> map bookOf (filter (\<lambda>r. similarity r = 0)
         (getPersonalizedRecommendations zeroClock [] exPoolTie [] 10))
       = [mkBook 1 ''a'' None, mkBook 2 ''b'' None]
   \<and> map fst (filter (\<lambda>item. snd item = 0) (scoreBooks zeroClock 0 [] [] exPoolTie))
       = [mkBook 1 ''a'' None, mkBook 2 ''b'' None]
   \<and> prefix
        (map bookOf (filter (\<lambda>r. similarity r = 0)
           (getPersonalizedRecommendations zeroClock [] exPoolTie [] 10)))
        (map fst (filter (\<lambda>item. snd item = 0) (scoreBooks zeroClock 0 [] [] exPoolTie)))
   \<and> map fst (scoreBooks zeroClock 0 [] [] exPoolTie) = exPoolTie
   \<and> findIndex (\<lambda>book. book_id book = book_id (mkBook 1 ''x'' (Some ''g'')))
        (validBooks exCorpusTie) = Some 0
   \<and> map similarity (getRecommendations (mkBook 1 ''x'' (Some ''g'')) exCorpusTie 10)
       = [exTieScore, exTieScore]
   \<and> map bookOf (filter (\<lambda>r. similarity r = exTieScore)
         (getRecommendations (mkBook 1 ''x'' (Some ''g'')) exCorpusTie 10))
       = [mkBook 2 ''y'' (Some ''g''), mkBook 3 ''y'' (Some ''g'')]
   \<and> prefix
        (map bookOf (filter (\<lambda>r. similarity r = exTieScore)
           (getRecommendations (mkBook 1 ''x'' (Some ''g'')) exCorpusTie 10)))
        (map fst (filter (\<lambda>item. snd item = exTieScore)
           (similarities (validBooks exCorpusTie) (combinedVectors (validBooks exCorpusTie)) 0)))
   \<and> map fst (similarities (validBooks exCorpusTie) (combinedVectors (validBooks exCorpusTie)) 0)
       = take 0 (validBooks exCorpusTie) @ drop (Suc 0) (validBooks exCorpusTie)"
proof -
  let ?t = "mkBook 1 ''x'' (Some ''g'')"
  have p1: "map similarity (getPersonalizedRecommendations zeroClock [] exPoolTie [] 10)
              = [3 / 10, 0, 0]"
    by (simp add: exPoolTie_result similarity_withSimilarity)
  have p2: "map bookOf (filter (\<lambda>r. similarity r = 0)
         (getPersonalizedRecommendations zeroClock [] exPoolTie [] 10))
       = [mkBook 1 ''a'' None, mkBook 2 ''b'' None]"
    by (simp add: exPoolTie_result similarity_withSimilarity bookOf_withSimilarity)
  have p3: "map fst (filter (\<lambda>item. snd item = 0) (scoreBooks zeroClock 0 [] [] exPoolTie))
       = [mkBook 1 ''a'' None, mkBook 2 ''b'' None]"
    by (simp add: exPoolTie_scored)
  have c1: "map similarity (getRecommendations ?t exCorpusTie 10) = [exTieScore, exTieScore]"
    by (simp add: exCorpusTie_result similarity_withSimilarity)
  have c2: "map bookOf (filter (\<lambda>r. similarity r = exTieScore)
         (getRecommendations ?t exCorpusTie 10))
       = [mkBook 2 ''y'' (Some ''g''), mkBook 3 ''y'' (Some ''g'')]"
    by (simp add: exCorpusTie_result similarity_withSimilarity bookOf_withSimilarity)
  note pers = ties_keep_input_order
      [where s = 0 and clock = zeroClock and prof = "[]" and candidateBooks = exPoolTie
         and allBooks = "[]" and topN = 10 and targetBook = ?t and targetIndex = 0]
  note cont = ties_keep_input_order
      [where s = exTieScore and clock = zeroClock and prof = "[]" and candidateBooks = exPoolTie
         and allBooks = exCorpusTie and topN = 10 and targetBook = ?t and targetIndex = 0]
  from pers have p4: "prefix
        (map bookOf (filter (\<lambda>r. similarity r = 0)
           (getPersonalizedRecommendations zeroClock [] exPoolTie [] 10)))
        (map fst (filter (\<lambda>item. snd item = 0) (scoreBooks zeroClock 0 [] [] exPoolTie)))"
    and p5: "map fst (scoreBooks zeroClock 0 [] [] exPoolTie) = exPoolTie"
    by blast+
  from cont exCorpusTie_index have c3: "prefix
        (map bookOf (filter (\<lambda>r. similarity r = exTieScore)
           (getRecommendations ?t exCorpusTie 10)))
        (map fst (filter (\<lambda>item. snd item = exTieScore)
           (similarities (validBooks exCorpusTie) (combinedVectors (validBooks exCorpusTie)) 0)))"
    and c4: "map fst (similarities (validBooks exCorpusTie) (combinedVectors (validBooks exCorpusTie)) 0)
       = take 0 (validBooks exCorpusTie) @ drop (Suc 0) (validBooks exCorpusTie)"
    by blast+
  from p1 p2 p3 p4 p5 exCorpusTie_index c1 c2 c3 c4 show ?thesis
    by (intro conjI)
qed

end
